theory Spec2Isabelle
  imports Complex_Main
begin

section \<open>Savannah: a predator-prey simulation on a bounded plane\<close>

text \<open>
  The development embeds the simulation core of \<^verbatim>\<open>savannah.py\<close>: the speed curve,
  the movement geometry, the patches with their regrowth calendar, the animals with their
  per-tick step and target selection, and the model that owns them.

  Conventions of the embedding.
  \<^item> Python floats are read as real numbers, so every statement below is about the
    arithmetic the code writes down, not about rounding.
  \<^item> Objects are named by their uid; the fields of every object ever created stay in the
    world's tables, as a Python object stays alive while something refers to it.
  \<^item> An exception is a value \<open>Inl e\<close>; it ends the tick that raised it.
  \<^item> Drawing on the canvas and printing change nothing the simulation reads and are left out.
\<close>

subsection \<open>Errors\<close>

datatype error = ZeroDivisionError | OutOfBounds | NotInSpace | KeyError | TypeError

definition bind :: "error + 'a \<Rightarrow> ('a \<Rightarrow> error + 'b) \<Rightarrow> error + 'b" where
  "bind m f = (case m of Inl e \<Rightarrow> Inl e | Inr x \<Rightarrow> f x)"

subsection \<open>Speed curve and geometry\<close>

text \<open>\<^verbatim>\<open>get_speed(cur_age, max_age, max_speed)\<close>; the division raises for \<open>max_age = 0\<close>.\<close>

definition get_speed :: "real \<Rightarrow> real \<Rightarrow> real \<Rightarrow> error + real" where
  "get_speed cur_age max_age max_speed =
     (if max_age = 0 then Inl ZeroDivisionError
      else
        let x = cur_age / max_age;
            x = (if x > 1 then 1 else x);
            y = (if x < 0.5 then - ((2 * x - 1) ^ 4) + 1
                 else let x = x - 0.5 in 5.1 * x ^ 3 - 6.4 * x ^ 2 + 0.6 * x + 1);
            y = (if y \<le> 0.1 then 0.1 else y)
        in Inr (y * max_speed))"

type_synonym point = "real \<times> real"

definition get_distance :: "point \<Rightarrow> point \<Rightarrow> real" where
  "get_distance pos1 pos2 =
     (case pos1 of (x_1, y_1) \<Rightarrow> case pos2 of (x_2, y_2) \<Rightarrow>
        sqrt ((y_2 - y_1) ^ 2 + (x_2 - x_1) ^ 2))"

text \<open>\<^verbatim>\<open>calc_move(x_1, y_1, x_2, y_2, distance)\<close> returns the new position and the two deltas.\<close>

definition calc_move :: "real \<Rightarrow> real \<Rightarrow> real \<Rightarrow> real \<Rightarrow> real \<Rightarrow> point \<times> real \<times> real" where
  "calc_move x_1 y_1 x_2 y_2 distance =
     (let dy0 = y_2 - y_1;
          dx0 = x_2 - x_1;
          delta_y =
            (if dy0 \<noteq> 0
             then sqrt (distance ^ 2 / ((dx0 / dy0) ^ 2 + 1)) * (if dy0 < 0 then - 1 else 1)
             else 0);
          delta_x =
            (if dy0 \<noteq> 0
             then \<bar>(dx0 / dy0) * delta_y\<bar> * (if dx0 < 0 then - 1 else 1)
             else distance * (if dx0 < 0 then - 1 else 1))
      in if \<bar>delta_x\<bar> > \<bar>x_2 - x_1\<bar> \<or> \<bar>delta_y\<bar> > \<bar>y_2 - y_1\<bar>
         then ((x_2, y_2), delta_x, delta_y)
         else ((x_1 + delta_x, y_1 + delta_y), delta_x, delta_y))"

subsection \<open>Configuration and randomness\<close>

text \<open>
  The module-level constants, which the sliders overwrite before a run. \<open>default_config\<close>
  holds the values the file assigns.
\<close>

record config =
  ROCKY_AREAS :: real
  AGE_T :: real
  GRASS_REGROW :: real
  BABIES_PER_TIGER_PREGS :: real
  BABIES_PER_PREY_PREGS :: real
  FOOD_PER_TICK :: real
  LIFESPAN_TIGER :: real
  LIFESPAN_PREY :: real
  RADIUS_PREY :: real
  RADIUS_TIGER :: real

definition default_config :: config where
  "default_config =
     \<lparr>ROCKY_AREAS = 0.02, AGE_T = 0.005, GRASS_REGROW = 2, BABIES_PER_TIGER_PREGS = 2,
      BABIES_PER_PREY_PREGS = 3.5, FOOD_PER_TICK = 0.3, LIFESPAN_TIGER = 17,
      LIFESPAN_PREY = 9, RADIUS_PREY = 2, RADIUS_TIGER = 9\<rparr>"

type_synonym uid = nat

datatype terrain = Rock | Grass

datatype species = Prey | Tiger

text \<open>\<^verbatim>\<open>gender = random.randint(0, 1)\<close>: 0 is \<open>Female\<close>, 1 is \<open>Male\<close>.\<close>

datatype gender = Female | Male

text \<open>
  Every call of the \<^verbatim>\<open>random\<close> module is answered by an oracle. One oracle serves one
  tick (or the construction): within a tick an animal steps at most once and a uid is
  created at most once, so each draw is named by the animal that steps or by the uid that
  is created.
\<close>

record rand =
  sched_shuffle :: "uid list \<Rightarrow> uid list"
  cell_shuffle :: "uid \<Rightarrow> uid list \<Rightarrow> uid list"
  food_shuffle :: "uid \<Rightarrow> uid list \<Rightarrow> uid list"
  litter_noise :: "uid \<Rightarrow> real"
  new_gender :: "uid \<Rightarrow> gender"
  lifespan_noise :: "uid \<Rightarrow> real"
  rocky_draw :: "uid \<Rightarrow> real"
  start_x :: "uid \<Rightarrow> int"
  start_y :: "uid \<Rightarrow> int"
  start_age :: "uid \<Rightarrow> int"

subsection \<open>Entities and the world\<close>

record patch =
  terrain :: terrain
  grass :: real
  ppos :: "point option"

record animal =
  gender :: gender
  pregs :: real
  target :: "uid option"
  age :: real
  pos :: "point option"
  alive :: bool
  food :: real
  species :: species
  max_age :: real
  max_speed :: real
  speed :: real

text \<open>
  \<open>Prey_model\<close>. \<open>schedule\<close> is the scheduler's ordered table of agent keys; \<open>space\<close> lists
  the agents of the \<^verbatim>\<open>ContinuousSpace(width+1, height+1, torus=False)\<close> in index order, whose
  stored points always equal the agents' \<open>pos\<close>; \<open>x_max\<close> and \<open>y_max\<close> are its bounds.
  \<open>patches\<close> and \<open>animals\<close> hold the objects by uid.
\<close>

record world =
  count :: int
  schedule :: "uid list"
  space :: "uid list"
  x_max :: real
  y_max :: real
  step_num :: int
  last_uid :: nat
  grass_ticks :: "int \<rightharpoonup> uid list"
  Prey_count :: int
  Tiger_count :: int
  patches :: "uid \<rightharpoonup> patch"
  animals :: "uid \<rightharpoonup> animal"

definition obj_pos :: "world \<Rightarrow> uid \<Rightarrow> point option" where
  "obj_pos w u =
     (case animals w u of Some a \<Rightarrow> pos a
      | None \<Rightarrow> (case patches w u of Some p \<Rightarrow> ppos p | None \<Rightarrow> None))"

definition set_pos :: "uid \<Rightarrow> point option \<Rightarrow> world \<Rightarrow> world" where
  "set_pos u p w =
     (case animals w u of Some a \<Rightarrow> w\<lparr>animals := (animals w)(u \<mapsto> a\<lparr>pos := p\<rparr>)\<rparr>
      | None \<Rightarrow>
         (case patches w u of Some q \<Rightarrow> w\<lparr>patches := (patches w)(u \<mapsto> q\<lparr>ppos := p\<rparr>)\<rparr>
          | None \<Rightarrow> w))"

subsection \<open>The continuous space\<close>

text \<open>
  The operations of the library's non-toroidal space that the program calls: a point
  outside \<open>[0, x_max) \<times> [0, y_max)\<close> is refused with an exception by \<open>place_agent\<close> and
  \<open>move_agent\<close>; \<open>remove_agent\<close> clears the agent's \<open>pos\<close>; \<open>get_neighbors\<close> returns the
  agents within the radius (inclusive), the centre included, in index order.
\<close>

definition out_of_bounds :: "world \<Rightarrow> point \<Rightarrow> bool" where
  "out_of_bounds w p = (case p of (x, y) \<Rightarrow> x < 0 \<or> x \<ge> x_max w \<or> y < 0 \<or> y \<ge> y_max w)"

definition place_agent :: "uid \<Rightarrow> point \<Rightarrow> world \<Rightarrow> error + world" where
  "place_agent u p w =
     (if out_of_bounds w p then Inl OutOfBounds
      else Inr (set_pos u (Some p) (w\<lparr>space := space w @ [u]\<rparr>)))"

definition move_agent :: "uid \<Rightarrow> point \<Rightarrow> world \<Rightarrow> error + world" where
  "move_agent u p w =
     (if out_of_bounds w p then Inl OutOfBounds
      else if u \<notin> set (space w) then Inl KeyError
      else Inr (set_pos u (Some p) w))"

definition remove_agent :: "uid \<Rightarrow> world \<Rightarrow> error + world" where
  "remove_agent u w =
     (if u \<notin> set (space w) then Inl NotInSpace
      else Inr (set_pos u None (w\<lparr>space := removeAll u (space w)\<rparr>)))"

definition in_radius :: "world \<Rightarrow> point \<Rightarrow> real \<Rightarrow> uid \<Rightarrow> bool" where
  "in_radius w p radius u =
     (case obj_pos w u of None \<Rightarrow> False
      | Some q \<Rightarrow> (abs (fst q - fst p)) ^ 2 + (abs (snd q - snd p)) ^ 2 \<le> radius ^ 2)"

definition get_neighbors :: "world \<Rightarrow> point \<Rightarrow> real \<Rightarrow> uid list" where
  "get_neighbors w p radius = filter (in_radius w p radius) (space w)"

subsection \<open>Patches and the regrowth calendar\<close>

definition regrow :: "uid \<Rightarrow> world \<Rightarrow> world" where
  "regrow u w =
     (case patches w u of None \<Rightarrow> w
      | Some p \<Rightarrow> w\<lparr>patches := (patches w)(u \<mapsto> p\<lparr>grass := 1\<rparr>)\<rparr>)"

text \<open>
  \<^verbatim>\<open>Patch.munch\<close>: the regrowth tick is \<^verbatim>\<open>int(step_num + GRASS_REGROW // AGE_T)\<close>; the floor
  division raises for \<open>AGE_T = 0\<close>. Over the reals the delay \<^verbatim>\<open>GRASS_REGROW // AGE_T\<close> is the
  floor of the quotient. Python divides the floats: where the quotient of the reals is an
  integer and the constants are not floats exactly, its result can be one less, as for the
  defaults, where \<^verbatim>\<open>2 // 0.005\<close> is 399 and \<open>\<lfloor>2 / 0.005\<rfloor>\<close> is 400. The properties of the regrowth
  below hold for whatever tick \<open>regrow_tick\<close> gives, and their examples use constants for which
  both divisions agree.
\<close>

definition regrow_tick :: "config \<Rightarrow> world \<Rightarrow> int" where
  "regrow_tick cfg w = step_num w + \<lfloor>GRASS_REGROW cfg / AGE_T cfg\<rfloor>"

definition munch :: "config \<Rightarrow> uid \<Rightarrow> world \<Rightarrow> error + world" where
  "munch cfg u w =
     (case patches w u of None \<Rightarrow> Inl TypeError
      | Some p \<Rightarrow>
          if AGE_T cfg = 0 then Inl ZeroDivisionError
          else
            let step = regrow_tick cfg w;
                g = (case grass_ticks w step of None \<Rightarrow> [] | Some g \<Rightarrow> g)
            in Inr (w\<lparr>patches := (patches w)(u \<mapsto> p\<lparr>grass := 0\<rparr>),
                      grass_ticks := (grass_ticks w)(step \<mapsto> g @ [u])\<rparr>))"

text \<open>The regrowth block of \<^verbatim>\<open>Prey_model.step\<close>, run after \<open>step_num\<close> is incremented.\<close>

definition regrow_due :: "world \<Rightarrow> world" where
  "regrow_due w =
     (case grass_ticks w (step_num w) of None \<Rightarrow> w
      | Some g \<Rightarrow> (fold regrow g w)\<lparr>grass_ticks := (grass_ticks w)(step_num w := None)\<rparr>)"

definition begin_tick :: "world \<Rightarrow> world" where
  "begin_tick w = regrow_due (w\<lparr>step_num := step_num w + 1\<rparr>)"

subsection \<open>Animals\<close>

definition can_mate :: "animal \<Rightarrow> bool" where
  "can_mate a = (gender a = Female \<and> pregs a = 0 \<and> 8 > age a \<and> age a > 1 \<and> food a > 50)"

definition set_speed :: "animal \<Rightarrow> error + animal" where
  "set_speed a =
     bind (get_speed (age a) (max_age a) (max_speed a))
       (\<lambda>s. Inr (a\<lparr>speed := (if pregs a \<noteq> 0 then s - pregs a else s)\<rparr>))"

text \<open>
  The constructors \<^verbatim>\<open>Prey(uid, model, age)\<close> and \<^verbatim>\<open>Tiger(uid, model, age)\<close>; \<open>max_age\<close> is
  \<^verbatim>\<open>norm_distro\<close> of the lifespan, and the constructor ends with \<open>set_speed\<close>.
\<close>

definition new_animal :: "rand \<Rightarrow> config \<Rightarrow> uid \<Rightarrow> species \<Rightarrow> real \<Rightarrow> error + animal" where
  "new_animal r cfg u sp ag =
     set_speed
       \<lparr>gender = new_gender r u, pregs = 0, target = None, age = ag, pos = Some (0, 0),
        alive = True, food = (if sp = Prey then 10 else 50), species = sp,
        max_age = (lifespan_noise r u + 1) *
                  (if sp = Prey then LIFESPAN_PREY cfg else LIFESPAN_TIGER cfg),
        max_speed = (if sp = Prey then 1 else 2), speed = 0\<rparr>"

text \<open>\<^verbatim>\<open>Prey_model.kill\<close>; \<^verbatim>\<open>pos_box(a.pos)\<close> raises for an animal without a position.\<close>

definition kill :: "uid \<Rightarrow> world \<Rightarrow> error + world" where
  "kill u w =
     (case animals w u of None \<Rightarrow> Inl TypeError
      | Some a \<Rightarrow>
          let w1 = (if species a = Prey then w\<lparr>Prey_count := Prey_count w - 1\<rparr>
                    else w\<lparr>Tiger_count := Tiger_count w - 1\<rparr>)
          in if pos a = None then Inl TypeError
             else bind (remove_agent u (w1\<lparr>count := count w1 - 1\<rparr>))
                    (\<lambda>w2. if u \<notin> set (schedule w2) then Inl KeyError
                          else Inr (w2\<lparr>schedule := removeAll u (schedule w2)\<rparr>)))"

definition create_baby ::
  "rand \<Rightarrow> config \<Rightarrow> real \<Rightarrow> real \<Rightarrow> real \<Rightarrow> species \<Rightarrow> world \<Rightarrow> error + world" where
  "create_baby r cfg x y ag sp w =
     (let u = last_uid w + 1;
          w1 = w\<lparr>last_uid := u\<rparr>
      in bind (new_animal r cfg u sp ag)
           (\<lambda>a. let w2 = (if sp = Prey then w1\<lparr>Prey_count := Prey_count w1 + 1\<rparr>
                          else w1\<lparr>Tiger_count := Tiger_count w1 + 1\<rparr>);
                     w3 = w2\<lparr>animals := (animals w2)(u \<mapsto> a), schedule := schedule w2 @ [u]\<rparr>
                 in bind (place_agent u (x, y) w3)
                      (\<lambda>w4. Inr (w4\<lparr>count := count w4 + 1\<rparr>))))"

fun create_babies :: "rand \<Rightarrow> config \<Rightarrow> nat \<Rightarrow> point \<Rightarrow> species \<Rightarrow> world \<Rightarrow> error + world" where
  "create_babies r cfg 0 p sp w = Inr w"
| "create_babies r cfg (Suc n) p sp w =
     bind (create_baby r cfg (fst p) (snd p) 0 sp w) (create_babies r cfg n p sp)"

text \<open>\<^verbatim>\<open>int(round(x, 0))\<close>: Python rounds a half to the even neighbour.\<close>

definition py_round :: "real \<Rightarrow> int" where
  "py_round x =
     (let f = \<lfloor>x\<rfloor>; d = x - of_int f
      in if d < 1 / 2 then f else if d > 1 / 2 then f + 1 else if even f then f else f + 1)"

text \<open>The pregnancy block of \<^verbatim>\<open>Animal.step\<close>.\<close>

definition pregnancy :: "rand \<Rightarrow> config \<Rightarrow> uid \<Rightarrow> world \<Rightarrow> error + world" where
  "pregnancy r cfg u w =
     (case animals w u of None \<Rightarrow> Inl TypeError
      | Some a \<Rightarrow>
          if pregs a \<noteq> 0 then
            let a1 = a\<lparr>food := food a - FOOD_PER_TICK cfg / 3, pregs := pregs a + AGE_T cfg\<rparr>
            in if pregs a1 \<ge> 1 then
                 let a2 = a1\<lparr>pregs := 0\<rparr>;
                     babies = py_round ((litter_noise r u + 1) *
                        (if species a2 = Tiger then BABIES_PER_TIGER_PREGS cfg
                         else BABIES_PER_PREY_PREGS cfg));
                     w1 = w\<lparr>animals := (animals w)(u \<mapsto> a2)\<rparr>
                 in (case pos a2 of
                       None \<Rightarrow> if babies \<le> 0 then Inr w1 else Inl TypeError
                     | Some p \<Rightarrow> create_babies r cfg (nat babies) p (species a2) w1)
               else Inr (w\<lparr>animals := (animals w)(u \<mapsto> a1)\<rparr>)
          else Inr w)"

text \<open>\<^verbatim>\<open>if step % 10 == 0: self.set_speed()\<close>.\<close>

definition birthday :: "uid \<Rightarrow> world \<Rightarrow> error + world" where
  "birthday u w =
     (if step_num w mod 10 = 0 then
        (case animals w u of None \<Rightarrow> Inl TypeError
         | Some a \<Rightarrow> bind (set_speed a) (\<lambda>a1. Inr (w\<lparr>animals := (animals w)(u \<mapsto> a1)\<rparr>)))
      else Inr w)"

subsection \<open>Target selection\<close>

text \<open>The tests on \<open>obj.type\<close>, \<open>obj.grass\<close> and \<open>obj.can_mate()\<close> for an object given by uid.\<close>

definition is_grass :: "world \<Rightarrow> uid \<Rightarrow> bool" where
  "is_grass w u =
     (case animals w u of Some a \<Rightarrow> False
      | None \<Rightarrow> (case patches w u of Some p \<Rightarrow> terrain p = Grass | None \<Rightarrow> False))"

definition grown :: "world \<Rightarrow> uid \<Rightarrow> bool" where
  "grown w u = (case patches w u of Some p \<Rightarrow> grass p \<ge> 1 | None \<Rightarrow> False)"

definition has_species :: "world \<Rightarrow> uid \<Rightarrow> species \<Rightarrow> bool" where
  "has_species w u sp = (case animals w u of Some a \<Rightarrow> species a = sp | None \<Rightarrow> False)"

definition mate_ready :: "world \<Rightarrow> uid \<Rightarrow> bool" where
  "mate_ready w u = (case animals w u of Some a \<Rightarrow> can_mate a | None \<Rightarrow> False)"

text \<open>
  The first block of \<^verbatim>\<open>Animal.get_target\<close>, for a target within distance 0.5: it either
  returns \<open>None\<close> from \<open>get_target\<close> (\<open>Returned\<close>) or goes on with the local \<open>target\<close>.
\<close>

datatype reach = Returned world | Carry_on "uid option" world

definition reach_target :: "config \<Rightarrow> uid \<Rightarrow> world \<Rightarrow> error + reach" where
  "reach_target cfg u w =
     (case animals w u of None \<Rightarrow> Inl TypeError
      | Some self \<Rightarrow>
         (case target self of None \<Rightarrow> Inr (Carry_on None w)
          | Some t \<Rightarrow>
             (case obj_pos w t of None \<Rightarrow> Inr (Carry_on (Some t) w)
              | Some q \<Rightarrow>
                 (case pos self of None \<Rightarrow> Inl TypeError
                  | Some p \<Rightarrow>
                      if get_distance p q < 0.5 then
                        if species self = Prey \<and> is_grass w t \<and> food self < 80 \<and> grown w t then
                          bind (munch cfg t w)
                            (\<lambda>w1. Inr (Returned
                               (w1\<lparr>animals := (animals w1)(u \<mapsto> self\<lparr>food := food self + 10\<rparr>)\<rparr>)))
                        else if species self = Tiger \<and> has_species w t Prey \<and> food self < 80 then
                          (case animals w t of None \<Rightarrow> Inl TypeError
                           | Some prey \<Rightarrow>
                               Inr (Returned
                                 (w\<lparr>animals := (animals w)
                                     (u \<mapsto> self\<lparr>food := food self + (40 + food prey / 4)\<rparr>,
                                      t \<mapsto> prey\<lparr>alive := False\<rparr>)\<rparr>)))
                        else if has_species w t (species self) \<and> mate_ready w t then
                          (case animals w t of None \<Rightarrow> Inl TypeError
                           | Some mate \<Rightarrow>
                               Inr (Carry_on (Some t)
                                 (w\<lparr>animals := (animals w)(t \<mapsto> mate\<lparr>pregs := 0.1\<rparr>)\<rparr>)))
                        else Inr (Carry_on None w)
                      else Inr (Carry_on (Some t) w)))))"

text \<open>The searches of \<open>get_target\<close> that run when no target is left.\<close>

definition find_food :: "rand \<Rightarrow> config \<Rightarrow> uid \<Rightarrow> animal \<Rightarrow> point \<Rightarrow> world \<Rightarrow> uid option" where
  "find_food r cfg u self p w =
     (if food self < 80 then
        if species self = Prey
        then find (\<lambda>obj. is_grass w obj \<and> grown w obj)
               (food_shuffle r u (get_neighbors w p (RADIUS_PREY cfg)))
        else find (\<lambda>obj. has_species w obj Prey) (get_neighbors w p (RADIUS_TIGER cfg))
      else None)"

definition find_mate :: "animal \<Rightarrow> uid list \<Rightarrow> world \<Rightarrow> uid option" where
  "find_mate self cellmates w =
     (if gender self = Male
      then find (\<lambda>obj. has_species w obj (species self) \<and> mate_ready w obj) cellmates
      else None)"

definition search :: "rand \<Rightarrow> config \<Rightarrow> uid \<Rightarrow> uid list \<Rightarrow> world \<Rightarrow> uid option" where
  "search r cfg u cellmates w =
     (case animals w u of None \<Rightarrow> None
      | Some self \<Rightarrow>
         (case pos self of None \<Rightarrow> None
          | Some p \<Rightarrow>
             (case find_food r cfg u self p w of Some obj \<Rightarrow> Some obj
              | None \<Rightarrow>
                 (case find_mate self cellmates w of Some obj \<Rightarrow> Some obj
                  | None \<Rightarrow> find (is_grass w) cellmates))))"

definition get_target :: "rand \<Rightarrow> config \<Rightarrow> uid \<Rightarrow> world \<Rightarrow> error + (uid option \<times> world)" where
  "get_target r cfg u w =
     (case animals w u of None \<Rightarrow> Inl TypeError
      | Some self \<Rightarrow>
         (case pos self of None \<Rightarrow> Inl TypeError
          | Some p \<Rightarrow>
              let cellmates = cell_shuffle r u (get_neighbors w p 3)
              in bind (reach_target cfg u w)
                   (\<lambda>res. case res of
                       Returned w1 \<Rightarrow> Inr (None, w1)
                     | Carry_on (Some t) w1 \<Rightarrow> Inr (Some t, w1)
                     | Carry_on None w1 \<Rightarrow> Inr (search r cfg u cellmates w1, w1))))"

subsection \<open>The step of an animal\<close>

definition set_target :: "uid \<Rightarrow> uid option \<Rightarrow> world \<Rightarrow> world" where
  "set_target u t w =
     (case animals w u of None \<Rightarrow> w
      | Some a \<Rightarrow> w\<lparr>animals := (animals w)(u \<mapsto> a\<lparr>target := t\<rparr>)\<rparr>)"

text \<open>
  The guard \<^verbatim>\<open>if 0 > x > 80 or 0 > y > 80\<close> before the move; its body only prints. Python
  reads \<^verbatim>\<open>0 > x > 80\<close> as \<^verbatim>\<open>0 > x and x > 80\<close>.
\<close>

definition out_of_bounds_guard :: "point \<Rightarrow> bool" where
  "out_of_bounds_guard new_pos =
     (case new_pos of (x, y) \<Rightarrow> (0 > x \<and> x > 80) \<or> (0 > y \<and> y > 80))"

text \<open>The movement block of \<^verbatim>\<open>Animal.step\<close>, after \<open>self.target\<close> is assigned.\<close>

definition move_to_target :: "uid \<Rightarrow> world \<Rightarrow> error + world" where
  "move_to_target u w =
     (case animals w u of None \<Rightarrow> Inl TypeError
      | Some a \<Rightarrow>
         (case target a of None \<Rightarrow> Inr w
          | Some t \<Rightarrow>
             (case obj_pos w t of None \<Rightarrow> Inr (set_target u None w)
              | Some q \<Rightarrow>
                 (case pos a of None \<Rightarrow> Inl TypeError
                  | Some p \<Rightarrow>
                      move_agent u
                        (fst (calc_move (fst p) (snd p) (fst q) (snd q) (speed a))) w))))"

text \<open>\<^verbatim>\<open>self.target = self.get_target()\<close> and the movement block.\<close>

definition resolve_and_move :: "rand \<Rightarrow> config \<Rightarrow> uid \<Rightarrow> world \<Rightarrow> error + world" where
  "resolve_and_move r cfg u w =
     bind (get_target r cfg u w) (\<lambda>(t, w1). move_to_target u (set_target u t w1))"

definition animal_step :: "rand \<Rightarrow> config \<Rightarrow> uid \<Rightarrow> world \<Rightarrow> error + world" where
  "animal_step r cfg u w =
     (case animals w u of None \<Rightarrow> Inl TypeError
      | Some a \<Rightarrow>
          if \<not> alive a then kill u w
          else
            let a1 = a\<lparr>food := food a - FOOD_PER_TICK cfg, age := age a + AGE_T cfg\<rparr>;
                w1 = w\<lparr>animals := (animals w)(u \<mapsto> a1)\<rparr>
            in if food a1 \<le> 0 then kill u w1
               else if age a1 > max_age a1 then kill u w1
               else bind (pregnancy r cfg u w1)
                      (\<lambda>w2. bind (birthday u w2) (resolve_and_move r cfg u)))"

subsection \<open>The model\<close>

text \<open>
  The scheduler's step: the keys are shuffled once, and a key is stepped only if it is still
  in the schedule when its turn comes.
\<close>

fun run_agents :: "rand \<Rightarrow> config \<Rightarrow> uid list \<Rightarrow> world \<Rightarrow> error + world" where
  "run_agents r cfg [] w = Inr w"
| "run_agents r cfg (k # ks) w =
     (if k \<in> set (schedule w) then bind (animal_step r cfg k w) (run_agents r cfg ks)
      else run_agents r cfg ks w)"

definition model_step :: "rand \<Rightarrow> config \<Rightarrow> world \<Rightarrow> error + world" where
  "model_step r cfg w =
     (let w1 = begin_tick w in run_agents r cfg (sched_shuffle r (schedule w1)) w1)"

fun run :: "config \<Rightarrow> rand list \<Rightarrow> world \<Rightarrow> error + world" where
  "run cfg [] w = Inr w"
| "run cfg (r # rs) w = bind (model_step r cfg w) (run cfg rs)"

text \<open>\<^verbatim>\<open>Prey_model.__init__(Prey_count, Tiger_count, width, height, CANVAS)\<close>.\<close>

definition new_patch :: "rand \<Rightarrow> config \<Rightarrow> uid \<Rightarrow> patch" where
  "new_patch r cfg u =
     (let t = (if rocky_draw r u < ROCKY_AREAS cfg then Rock else Grass)
      in \<lparr>terrain = t, grass = (if t = Grass then 1 else 0), ppos = None\<rparr>)"

fun create_patches :: "rand \<Rightarrow> config \<Rightarrow> (nat \<times> nat) list \<Rightarrow> world \<Rightarrow> error + world" where
  "create_patches r cfg [] w = Inr w"
| "create_patches r cfg (xy # xys) w =
     (let u = last_uid w + 1;
          w1 = w\<lparr>last_uid := u, patches := (patches w)(u \<mapsto> new_patch r cfg u)\<rparr>
      in bind (place_agent u (real (fst xy), real (snd xy)) w1) (create_patches r cfg xys))"

fun create_animals :: "rand \<Rightarrow> config \<Rightarrow> nat \<Rightarrow> species \<Rightarrow> world \<Rightarrow> error + world" where
  "create_animals r cfg 0 sp w = Inr w"
| "create_animals r cfg (Suc n) sp w =
     (let u = last_uid w + 1
      in bind (create_baby r cfg (of_int (start_x r u)) (of_int (start_y r u))
                 (of_int (start_age r u)) sp w)
           (create_animals r cfg n sp))"

definition empty_world :: "nat \<Rightarrow> nat \<Rightarrow> world" where
  "empty_world width height =
     \<lparr>count = 0, schedule = [], space = [], x_max = real (width + 1),
      y_max = real (height + 1), step_num = 0, last_uid = 0, grass_ticks = Map.empty,
      Prey_count = 0, Tiger_count = 0, patches = Map.empty, animals = Map.empty\<rparr>"

definition Prey_model :: "rand \<Rightarrow> config \<Rightarrow> nat \<Rightarrow> nat \<Rightarrow> nat \<Rightarrow> nat \<Rightarrow> error + world" where
  "Prey_model r cfg prey_n tiger_n width height =
     bind (create_patches r cfg (List.product [0..<width] [0..<height])
            (empty_world width height))
       (\<lambda>w1. bind (create_animals r cfg prey_n Prey w1) (create_animals r cfg tiger_n Tiger))"

subsection \<open>Invariants and example inputs\<close>

definition males_not_pregnant :: "world \<Rightarrow> bool" where
  "males_not_pregnant w = (\<forall>u a. animals w u = Some a \<longrightarrow> gender a = Male \<longrightarrow> pregs a = 0)"

text \<open>
  An oracle that leaves every shuffle in place, draws no noise, makes every patch grass,
  starts every animal at \<open>(0, 0)\<close> with age 1 and takes the genders from \<open>g\<close>.
\<close>

definition plain_rand :: "(uid \<Rightarrow> gender) \<Rightarrow> rand" where
  "plain_rand g =
     \<lparr>sched_shuffle = (\<lambda>ks. ks), cell_shuffle = (\<lambda>u ks. ks), food_shuffle = (\<lambda>u ks. ks),
      litter_noise = (\<lambda>u. 0), new_gender = g, lifespan_noise = (\<lambda>u. 0),
      rocky_draw = (\<lambda>u. 1 / 2), start_x = (\<lambda>u. 0), start_y = (\<lambda>u. 0), start_age = (\<lambda>u. 1)\<rparr>"


text \<open>The genders used in the examples: the animal with uid 4 is male, every other female.\<close>

definition one_male :: "uid \<Rightarrow> gender" where
  "one_male u = (if u = 4 then Male else Female)"

subsection \<open>Grass levels and pending regrowth\<close>

definition grass_level :: "world \<Rightarrow> uid \<Rightarrow> real option" where
  "grass_level w u = map_option grass (patches w u)"

text \<open>
  \<open>regrowth_pending T u w\<close>: before tick \<open>T\<close> the patch \<open>u\<close> is on the calendar's list for
  \<open>T\<close>; from tick \<open>T\<close> on its grass is 1.
\<close>

definition regrowth_pending :: "int \<Rightarrow> uid \<Rightarrow> world \<Rightarrow> bool" where
  "regrowth_pending T u w =
     (if step_num w < T
      then patches w u \<noteq> None \<and> u \<in> set (case grass_ticks w T of None \<Rightarrow> [] | Some g \<Rightarrow> g)
      else grass_level w u = Some 1)"


subsection \<open>Runs and what is observed of them\<close>

text \<open>
  \<open>simulate\<close> constructs the model and runs \<open>n\<close> ticks, every tick with the answers of \<open>r\<close>.
  \<open>world_of\<close> and \<open>animal_at\<close> read the result of a run that raised nothing.
\<close>

definition simulate ::
  "rand \<Rightarrow> config \<Rightarrow> nat \<Rightarrow> nat \<Rightarrow> nat \<Rightarrow> nat \<Rightarrow> nat \<Rightarrow> error + world" where
  "simulate r cfg prey_n tiger_n width height n =
     bind (Prey_model r cfg prey_n tiger_n width height) (run cfg (replicate n r))"

definition world_of :: "error + world \<Rightarrow> world option" where
  "world_of m = (case m of Inl e \<Rightarrow> None | Inr w \<Rightarrow> Some w)"

definition animal_at :: "uid \<Rightarrow> error + world \<Rightarrow> animal option" where
  "animal_at u m = (case m of Inl e \<Rightarrow> None | Inr w \<Rightarrow> animals w u)"

text \<open>
  The two example populations on a single patch with the default constants: one prey (uid 2)
  and one tiger (uid 3); one prey (uid 2), a tigress (uid 3) and a male tiger (uid 4).
\<close>

definition hunt_run :: "nat \<Rightarrow> error + world" where
  "hunt_run n = simulate (plain_rand one_male) default_config 1 1 1 1 n"

definition pack_run :: "nat \<Rightarrow> error + world" where
  "pack_run n = simulate (plain_rand one_male) default_config 1 2 1 1 n"

text \<open>
  Constants within the range of the sliders (\<open>AGE_T\<close> and \<open>LIFESPAN_TIGER\<close> at their upper
  ends, \<open>FOOD_PER_TICK\<close> at 70 of its 100 steps), and two sets of answers for a world of width
  4 and height 1 with two prey (uids 5 and 6), a tigress (uid 7) and a male tiger (uid 8).
  In \<open>edge_rand\<close> only the patch at \<open>(0, 0)\<close> is grass, prey 6 starts on it and the others
  start at \<open>(4, 0)\<close>; in \<open>corner_rand\<close> every patch is rock, prey 6 starts at \<open>(4, 0)\<close>, the
  others at \<open>(0, 0)\<close>, and the scheduler steps the agents in reverse order.
\<close>

definition edge_config :: config where
  "edge_config = default_config\<lparr>AGE_T := 0.025, FOOD_PER_TICK := 1.05, LIFESPAN_TIGER := 85\<rparr>"

definition edge_rand :: rand where
  "edge_rand =
     \<lparr>sched_shuffle = (\<lambda>ks. ks), cell_shuffle = (\<lambda>u ks. ks), food_shuffle = (\<lambda>u ks. ks),
      litter_noise = (\<lambda>u. 0), new_gender = (\<lambda>u. if u = 8 then Male else Female),
      lifespan_noise = (\<lambda>u. 0), rocky_draw = (\<lambda>u. if u = 1 then 1 / 2 else 0),
      start_x = (\<lambda>u. if u = 6 then 0 else 4), start_y = (\<lambda>u. 0), start_age = (\<lambda>u. 1)\<rparr>"

definition corner_rand :: rand where
  "corner_rand =
     \<lparr>sched_shuffle = rev, cell_shuffle = (\<lambda>u ks. ks), food_shuffle = (\<lambda>u ks. ks),
      litter_noise = (\<lambda>u. 0), new_gender = (\<lambda>u. if u = 8 then Male else Female),
      lifespan_noise = (\<lambda>u. 0), rocky_draw = (\<lambda>u. 0),
      start_x = (\<lambda>u. if u = 6 then 4 else 0), start_y = (\<lambda>u. 0), start_age = (\<lambda>u. 1)\<rparr>"

definition edge_run :: "nat \<Rightarrow> error + world" where
  "edge_run n = simulate edge_rand edge_config 2 2 4 1 n"

definition corner_run :: "nat \<Rightarrow> error + world" where
  "corner_run n = simulate corner_rand edge_config 2 2 4 1 n"

subsection \<open>Observing the munches of a tick\<close>

text \<open>
  \<open>calendar w T\<close> is the list \<^verbatim>\<open>grass_ticks.get(T, [])\<close>. Every call of \<^verbatim>\<open>Patch.munch\<close> in a tick
  appends its patch to the calendar's list for \<open>regrow_tick\<close>, and nothing else touches that
  list before the tick ends; so the patches munched in the tick that starts in \<open>w\<close> are the
  entries that the list has gained when the tick ends. \<open>never_munched cfg u rs w\<close>: the patch
  \<open>u\<close> is munched in none of the ticks that \<open>run cfg rs w\<close> performs.
\<close>

definition calendar :: "world \<Rightarrow> int \<Rightarrow> uid list" where
  "calendar w T = (case grass_ticks w T of None \<Rightarrow> [] | Some g \<Rightarrow> g)"

definition munched_in_tick :: "rand \<Rightarrow> config \<Rightarrow> world \<Rightarrow> uid list" where
  "munched_in_tick r cfg w =
     (case model_step r cfg w of Inl e \<Rightarrow> []
      | Inr w' \<Rightarrow>
          drop (length (calendar (begin_tick w) (regrow_tick cfg (begin_tick w))))
            (calendar w' (regrow_tick cfg (begin_tick w))))"


text \<open>
  \<open>same_grass w w'\<close>: the step from \<open>w\<close> to \<open>w'\<close> leaves the tick counter, the calendar and the
  grass of every patch as they are. \<open>grazed cfg w w'\<close>: it leaves the tick counter and the
  calendar's other lists as they are, appends some patches \<open>ms\<close> to the list for
  \<open>regrow_tick\<close>, and changes the grass of no patch outside \<open>ms\<close>.
\<close>

definition same_grass :: "world \<Rightarrow> world \<Rightarrow> bool" where
  "same_grass w w' =
     (step_num w' = step_num w \<and> grass_ticks w' = grass_ticks w \<and>
      grass_level w' = grass_level w)"

definition grazed :: "config \<Rightarrow> world \<Rightarrow> world \<Rightarrow> bool" where
  "grazed cfg w w' =
     (step_num w' = step_num w \<and>
      (\<forall>v. (patches w' v = None) = (patches w v = None)) \<and>
      (\<forall>K. K \<noteq> regrow_tick cfg w \<longrightarrow> grass_ticks w' K = grass_ticks w K) \<and>
      (\<exists>ms. calendar w' (regrow_tick cfg w) = calendar w (regrow_tick cfg w) @ ms \<and>
            (\<forall>v. v \<notin> set ms \<longrightarrow> grass_level w' v = grass_level w v)))"






section \<open>Properties\<close>

text \<open>The unfolding rules that evaluate the model on a concrete input.\<close>

lemmas model_eval = plain_rand_def default_config_def Prey_model_def empty_world_def bind_def
  create_baby_def new_animal_def set_speed_def get_speed_def place_agent_def out_of_bounds_def
  set_pos_def new_patch_def Let_def power2_eq_square power3_eq_cube power4_eq_xxxx
  model_step_def begin_tick_def regrow_due_def animal_step_def pregnancy_def birthday_def
  resolve_and_move_def get_target_def reach_target_def search_def find_food_def find_mate_def
  get_neighbors_def in_radius_def obj_pos_def is_grass_def grown_def has_species_def
  mate_ready_def can_mate_def move_to_target_def set_target_def calc_move_def get_distance_def
  move_agent_def munch_def regrow_tick_def kill_def remove_agent_def
  simulate_def world_of_def animal_at_def one_male_def numeral_eq_Suc

subsection \<open>Movement geometry\<close>

lemma sqrt_ratio:
  assumes "dy \<noteq> 0" "0 \<le> d"
  shows "sqrt (d ^ 2 / ((dx / dy) ^ 2 + 1)) = d * \<bar>dy\<bar> / sqrt (dy ^ 2 + dx ^ 2)"
proof -
  have "(dx / dy) ^ 2 + 1 = (dy ^ 2 + dx ^ 2) / dy ^ 2"
    using assms by (simp add: field_simps power2_eq_square)
  then have "sqrt (d ^ 2 / ((dx / dy) ^ 2 + 1)) = sqrt (d ^ 2 * dy ^ 2 / (dy ^ 2 + dx ^ 2))"
    by simp
  also have "\<dots> = sqrt (d ^ 2 * dy ^ 2) / sqrt (dy ^ 2 + dx ^ 2)"
    by (simp add: real_sqrt_divide)
  also have "sqrt (d ^ 2 * dy ^ 2) = d * \<bar>dy\<bar>"
    using assms by (simp add: real_sqrt_mult)
  finally show ?thesis .
qed

text \<open>Target on the same horizontal line: the branch \<^verbatim>\<open>delta_y == 0\<close>.\<close>

lemma calc_move_degenerate:
  assumes "0 \<le> d"
  shows "fst (calc_move x1 y1 x2 y1 d) =
     (if d > \<bar>x2 - x1\<bar> then (x2, y1)
      else if x2 = x1 then (x1, y1)
      else (x1 + d * (x2 - x1) / \<bar>x2 - x1\<bar>, y1))"
  using assms by (auto simp: calc_move_def Let_def field_simps)

text \<open>Any other target: the branch that scales the deltas by the slope.\<close>

lemma calc_move_general:
  assumes "0 \<le> d" "dy \<noteq> 0"
  shows "fst (calc_move x1 y1 (x1 + dx) (y1 + dy) d) =
     (if d > sqrt (dy ^ 2 + dx ^ 2) then (x1 + dx, y1 + dy)
      else (x1 + d * dx / sqrt (dy ^ 2 + dx ^ 2), y1 + d * dy / sqrt (dy ^ 2 + dx ^ 2)))"
proof -
  define D where "D = sqrt (dy ^ 2 + dx ^ 2)"
  have dy: "dy \<noteq> 0" using assms by simp
  have Dpos: "0 < D" unfolding D_def using dy
    by (simp add: add_pos_nonneg)
  have s: "sqrt (d ^ 2 / ((dx / dy) ^ 2 + 1)) = d * \<bar>dy\<bar> / D"
    unfolding D_def by (rule sqrt_ratio [OF dy assms(1)])
  have dyv: "sqrt (d ^ 2 / ((dx / dy) ^ 2 + 1)) * (if dy < 0 then - 1 else 1) = d * dy / D"
    unfolding s by simp
  have dxv: "\<bar>(dx / dy) * (d * dy / D)\<bar> * (if dx < 0 then - 1 else 1) = d * dx / D"
    using dy Dpos assms(1) by (simp add: abs_mult)
  have ax: "\<bar>d * dx / D\<bar> > \<bar>dx\<bar> \<longleftrightarrow> dx \<noteq> 0 \<and> d > D"
    using Dpos assms(1) by (auto simp: abs_mult field_simps mult_less_cancel_right)
  have ay: "\<bar>d * dy / D\<bar> > \<bar>dy\<bar> \<longleftrightarrow> d > D"
    using Dpos assms(1) dy by (auto simp: abs_mult field_simps mult_less_cancel_right)
  have "fst (calc_move x1 y1 (x1 + dx) (y1 + dy) d) =
      (if \<bar>d * dx / D\<bar> > \<bar>dx\<bar> \<or> \<bar>d * dy / D\<bar> > \<bar>dy\<bar> then (x1 + dx, y1 + dy)
       else (x1 + d * dx / D, y1 + d * dy / D))"
    unfolding calc_move_def Let_def add_diff_cancel_left'
    by (simp only: dy dyv dxv simp_thms if_True if_False fst_conv if_distrib [of fst])
  then show ?thesis
    unfolding ax ay D_def [symmetric] by auto
qed

text \<open>
  For a distance that is not negative, \<open>calc_move\<close> snaps to the target when the distance
  exceeds the way to it, and otherwise moves exactly \<open>distance\<close> units along the straight
  line to the target; in particular from \<open>(0, 0)\<close> towards \<open>(10, 0)\<close> by 5 it gives \<open>(5, 0)\<close>
  and towards \<open>(3, 0)\<close> by 5 it gives \<open>(3, 0)\<close>.
\<close>

lemma calc_move_exact:
  "(0 \<le> distance \<longrightarrow>
      fst (calc_move x_1 y_1 x_2 y_2 distance) =
        (let D = get_distance (x_1, y_1) (x_2, y_2) in
         if distance > D then (x_2, y_2)
         else if D = 0 then (x_1, y_1)
         else (x_1 + distance * (x_2 - x_1) / D, y_1 + distance * (y_2 - y_1) / D)))
   \<and> fst (calc_move 0 0 10 0 5) = (5, 0)
   \<and> fst (calc_move 0 0 3 0 5) = (3, 0)"
proof (intro conjI impI)
  assume d: "0 \<le> distance"
  show "fst (calc_move x_1 y_1 x_2 y_2 distance) =
     (let D = get_distance (x_1, y_1) (x_2, y_2) in
      if distance > D then (x_2, y_2)
      else if D = 0 then (x_1, y_1)
      else (x_1 + distance * (x_2 - x_1) / D, y_1 + distance * (y_2 - y_1) / D))"
  proof (cases "y_2 = y_1")
    case True
    then show ?thesis
      using calc_move_degenerate [OF d, of x_1 y_1 x_2]
      by (auto simp: get_distance_def Let_def)
  next
    case False
    then have "get_distance (x_1, y_1) (x_2, y_2) \<noteq> 0"
      by (simp add: get_distance_def power2_eq_square add_nonneg_eq_0_iff)
    then show ?thesis
      using calc_move_general [OF d, of "y_2 - y_1" x_1 y_1 "x_2 - x_1"] False
      by (simp add: get_distance_def Let_def)
  qed
next
  show "fst (calc_move 0 0 10 0 5) = (5, 0)"
    by (simp add: calc_move_def Let_def)
next
  show "fst (calc_move 0 0 3 0 5) = (3, 0)"
    by (simp add: calc_move_def Let_def)
qed

text \<open>
  C6. The distance that \<open>Animal.step\<close> hands to \<open>calc_move\<close> is the speed, which \<open>set_speed\<close>
  makes negative for a pregnant animal whose \<open>pregs\<close> exceeds \<open>get_speed\<close>. For a negative
  distance the branch for \<open>delta_y = 0\<close> takes the distance with its sign and moves the
  position away from the target, while the branch for \<open>delta_y \<noteq> 0\<close> takes the root of its
  square and moves towards the target. The first call is the one of the tigress in tick 10 of
  the run \<open>edge_run\<close>: from \<open>(4, 0)\<close> with the target \<open>(0, 0)\<close> she is moved to
  \<open>x = 2689299 / 668168 > 4\<close>.
\<close>

theorem calc_move_negative_distance:
  "fst (calc_move 4 0 0 0 (- (16627 / 668168))) = (2689299 / 668168, 0) \<and>
   fst (calc_move 0 0 10 0 (- 5)) = (- 5, 0) \<and>
   fst (calc_move 0 0 0 10 (- 5)) = (0, 5)"
  by (simp add: calc_move_def Let_def)

subsection \<open>Speed curve\<close>

text \<open>
  Claim C2, as the code has it. For a maximal age \<open>m_age > 0\<close> and a maximal speed
  \<open>m_speed\<close>, the speed at age 0 is the floor \<open>0.1 * m_speed\<close> (the quartic is 0 there), and
  the speed at age \<open>m_age\<close> is \<open>0.3375 * m_speed\<close> (the cubic at 0.5).
\<close>

theorem get_speed_boundary:
  "0 < m_age \<Longrightarrow>
     get_speed 0 m_age m_speed = Inr (0.1 * m_speed) \<and>
     get_speed m_age m_age m_speed = Inr (0.3375 * m_speed)"
  by (simp add: get_speed_def Let_def power3_eq_cube power2_eq_square)

theorem get_speed_boundary_witness:
  "(0::real) < 9 \<and> get_speed 0 9 2 = Inr 0.2 \<and> get_speed 9 9 2 = Inr 0.675"
  using get_speed_boundary [of 9 2] by simp

text \<open>
  Claim C2 as stated fails: with \<open>max_age = max_speed = 1\<close> the speed at age 0 is 0.1, not
  1, and the speed at age 1 is 0.3375, not 0.1.
\<close>

theorem get_speed_boundary_counterexample:
  "get_speed 0 1 1 = Inr 0.1 \<and> get_speed 0 1 1 \<noteq> Inr 1 \<and>
   get_speed 1 1 1 = Inr 0.3375 \<and> get_speed 1 1 1 \<noteq> Inr (0.1 * 1)"
  by (simp add: get_speed_def Let_def power3_eq_cube power2_eq_square)

subsection \<open>Males are never pregnant\<close>

lemma bind_Inr: "bind m f = Inr y \<longleftrightarrow> (\<exists>x. m = Inr x \<and> f x = Inr y)"
  by (cases m) (simp_all add: bind_def)

lemma mnp_same: "animals w' = animals w \<Longrightarrow> males_not_pregnant w \<Longrightarrow> males_not_pregnant w'"
  by (simp add: males_not_pregnant_def)

lemma mnp_upd:
  "males_not_pregnant w \<Longrightarrow> (gender a = Male \<longrightarrow> pregs a = 0) \<Longrightarrow>
   animals w' = (animals w)(u \<mapsto> a) \<Longrightarrow> males_not_pregnant w'"
  by (simp add: males_not_pregnant_def)

lemma mnp_at: "males_not_pregnant w \<Longrightarrow> animals w u = Some a \<Longrightarrow> gender a = Male \<Longrightarrow> pregs a = 0"
  by (simp add: males_not_pregnant_def)

lemma mnp_set_pos: "males_not_pregnant w \<Longrightarrow> males_not_pregnant (set_pos u p w)"
  by (auto simp: set_pos_def males_not_pregnant_def split: option.splits)

lemma mnp_field_upd [simp]:
  "males_not_pregnant (w\<lparr>space := s\<rparr>) = males_not_pregnant w"
  "males_not_pregnant (w\<lparr>schedule := s'\<rparr>) = males_not_pregnant w"
  "males_not_pregnant (w\<lparr>count := c\<rparr>) = males_not_pregnant w"
  "males_not_pregnant (w\<lparr>Prey_count := c\<rparr>) = males_not_pregnant w"
  "males_not_pregnant (w\<lparr>Tiger_count := c\<rparr>) = males_not_pregnant w"
  "males_not_pregnant (w\<lparr>last_uid := n\<rparr>) = males_not_pregnant w"
  "males_not_pregnant (w\<lparr>step_num := i\<rparr>) = males_not_pregnant w"
  "males_not_pregnant (w\<lparr>grass_ticks := g\<rparr>) = males_not_pregnant w"
  "males_not_pregnant (w\<lparr>patches := ps\<rparr>) = males_not_pregnant w"
  by (simp_all add: males_not_pregnant_def)

lemma mnp_place_agent: "place_agent u p w = Inr w' \<Longrightarrow> males_not_pregnant w \<Longrightarrow> males_not_pregnant w'"
  by (auto simp: place_agent_def mnp_set_pos split: if_splits)

lemma mnp_move_agent: "move_agent u p w = Inr w' \<Longrightarrow> males_not_pregnant w \<Longrightarrow> males_not_pregnant w'"
  by (auto simp: move_agent_def mnp_set_pos split: if_splits)

lemma mnp_remove_agent: "remove_agent u w = Inr w' \<Longrightarrow> males_not_pregnant w \<Longrightarrow> males_not_pregnant w'"
  by (auto simp: remove_agent_def mnp_set_pos split: if_splits)

lemma mnp_kill: "kill u w = Inr w' \<Longrightarrow> males_not_pregnant w \<Longrightarrow> males_not_pregnant w'"
  by (auto simp: kill_def Let_def bind_Inr split: option.splits if_splits dest!: mnp_remove_agent)

lemma set_speed_keeps: "set_speed a = Inr a' \<Longrightarrow> gender a' = gender a \<and> pregs a' = pregs a"
  by (auto simp: set_speed_def bind_Inr)

lemma new_animal_pregs: "new_animal r cfg u sp ag = Inr a \<Longrightarrow> pregs a = 0"
  by (auto simp: new_animal_def dest!: set_speed_keeps)

lemma mnp_create_baby:
  "create_baby r cfg x y ag sp w = Inr w' \<Longrightarrow> males_not_pregnant w \<Longrightarrow> males_not_pregnant w'"
proof -
  assume c: "create_baby r cfg x y ag sp w = Inr w'" and m: "males_not_pregnant w"
  from c obtain a w4 where a: "new_animal r cfg (last_uid w + 1) sp ag = Inr a"
    and p: "place_agent (last_uid w + 1) (x, y)
             ((if sp = Prey then w\<lparr>last_uid := last_uid w + 1, Prey_count := Prey_count w + 1\<rparr>
               else w\<lparr>last_uid := last_uid w + 1, Tiger_count := Tiger_count w + 1\<rparr>)
              \<lparr>animals := (animals w)(last_uid w + 1 \<mapsto> a),
                schedule := schedule w @ [last_uid w + 1]\<rparr>) = Inr w4"
    and w': "w' = w4\<lparr>count := count w4 + 1\<rparr>"
    by (auto simp: create_baby_def Let_def bind_Inr split: if_splits)
  have "males_not_pregnant
          ((if sp = Prey then w\<lparr>last_uid := last_uid w + 1, Prey_count := Prey_count w + 1\<rparr>
               else w\<lparr>last_uid := last_uid w + 1, Tiger_count := Tiger_count w + 1\<rparr>)
              \<lparr>animals := (animals w)(last_uid w + 1 \<mapsto> a),
                schedule := schedule w @ [last_uid w + 1]\<rparr>)"
    using m new_animal_pregs [OF a] by (auto simp: males_not_pregnant_def)
  from mnp_place_agent [OF p this] show ?thesis by (simp add: w')
qed

lemma mnp_create_babies:
  "create_babies r cfg n p sp w = Inr w' \<Longrightarrow> males_not_pregnant w \<Longrightarrow> males_not_pregnant w'"
  by (induction n arbitrary: w) (auto simp: bind_Inr dest: mnp_create_baby)

lemma mnp_pregnancy:
  assumes "pregnancy r cfg u w = Inr w'" "males_not_pregnant w"
  shows "males_not_pregnant w'"
proof -
  from assms(1) obtain a where a: "animals w u = Some a"
    by (auto simp: pregnancy_def split: option.splits)
  show ?thesis
  proof (cases "pregs a = 0")
    case True
    with assms a show ?thesis by (simp add: pregnancy_def)
  next
    case False
    with mnp_at [OF assms(2) a] have fem: "gender a \<noteq> Male" by auto
    have m1: "males_not_pregnant (w\<lparr>animals := (animals w)(u \<mapsto> b)\<rparr>)" if "gender b = gender a" for b
      using assms(2) fem that by (auto simp: males_not_pregnant_def)
    from assms(1) a False show ?thesis
      by (auto simp: pregnancy_def Let_def m1 split: if_splits option.splits
               dest!: mnp_create_babies)
  qed
qed

lemma mnp_birthday: "birthday u w = Inr w' \<Longrightarrow> males_not_pregnant w \<Longrightarrow> males_not_pregnant w'"
  by (auto simp: birthday_def bind_Inr males_not_pregnant_def
           split: if_splits option.splits dest!: set_speed_keeps)

lemma animals_munch: "munch cfg u w = Inr w' \<Longrightarrow> animals w' = animals w"
  by (auto simp: munch_def Let_def split: option.splits if_splits)

lemma animals_regrow: "animals (regrow u w) = animals w"
  by (simp add: regrow_def split: option.splits)

lemma animals_fold_regrow: "animals (fold regrow g w) = animals w"
  by (induction g arbitrary: w) (simp_all add: animals_regrow)

lemma animals_begin_tick: "animals (begin_tick w) = animals w"
  by (simp add: begin_tick_def regrow_due_def animals_fold_regrow split: option.splits)

lemma mnp_put:
  "males_not_pregnant w \<Longrightarrow> (gender a = Male \<longrightarrow> pregs a = 0) \<Longrightarrow>
   males_not_pregnant (w\<lparr>animals := (animals w)(u \<mapsto> a)\<rparr>)"
  by (simp add: males_not_pregnant_def)

lemma mnp_put2:
  "males_not_pregnant w \<Longrightarrow> (gender a = Male \<longrightarrow> pregs a = 0) \<Longrightarrow>
   (gender b = Male \<longrightarrow> pregs b = 0) \<Longrightarrow>
   males_not_pregnant (w\<lparr>animals := (animals w)(u \<mapsto> a, t \<mapsto> b)\<rparr>)"
  by (simp add: males_not_pregnant_def)

lemma mnp_reach_target:
  assumes r: "reach_target cfg u w = Inr res" and m: "males_not_pregnant w"
    and res: "res = Returned w' \<or> res = Carry_on t w'"
  shows "males_not_pregnant w'"
proof -
  from r obtain self where self: "animals w u = Some self"
    by (auto simp: reach_target_def split: option.splits)
  have ok: "gender self = Male \<longrightarrow> pregs self = 0"
    using mnp_at [OF m self] by simp
  show ?thesis
  proof (cases "target self")
    case None
    with r self res m show ?thesis by (auto simp: reach_target_def)
  next
    case (Some tt)
    show ?thesis
    proof (cases "obj_pos w tt")
      case None
      with r self res m Some show ?thesis by (auto simp: reach_target_def)
    next
      case q: (Some q)
      from r self Some q obtain p where p: "pos self = Some p"
        by (auto simp: reach_target_def split: option.splits)
      show ?thesis
      proof (cases "get_distance p q < 0.5")
        case False
        with r self res m Some q p show ?thesis by (auto simp: reach_target_def)
      next
        case near: True
        consider (eat) "species self = Prey \<and> is_grass w tt \<and> food self < 80 \<and> grown w tt"
          | (hunt) "\<not> (species self = Prey \<and> is_grass w tt \<and> food self < 80 \<and> grown w tt)"
                   "species self = Tiger \<and> has_species w tt Prey \<and> food self < 80"
          | (mate) "\<not> (species self = Prey \<and> is_grass w tt \<and> food self < 80 \<and> grown w tt)"
                   "\<not> (species self = Tiger \<and> has_species w tt Prey \<and> food self < 80)"
                   "has_species w tt (species self) \<and> mate_ready w tt"
          | (drop) "\<not> (species self = Prey \<and> is_grass w tt \<and> food self < 80 \<and> grown w tt)"
                   "\<not> (species self = Tiger \<and> has_species w tt Prey \<and> food self < 80)"
                   "\<not> (has_species w tt (species self) \<and> mate_ready w tt)"
          by blast
        then show ?thesis
        proof cases
          case eat
          with r self Some q p near obtain w1 where w1: "munch cfg tt w = Inr w1"
            and res1: "res = Returned (w1\<lparr>animals := (animals w1)(u \<mapsto> self\<lparr>food := food self + 10\<rparr>)\<rparr>)"
            by (auto simp: reach_target_def bind_Inr)
          have "males_not_pregnant w1"
            using mnp_same [OF animals_munch [OF w1] m] .
          then have "males_not_pregnant (w1\<lparr>animals := (animals w1)(u \<mapsto> self\<lparr>food := food self + 10\<rparr>)\<rparr>)"
            using ok by (intro mnp_put) simp_all
          with res res1 show ?thesis by auto
        next
          case hunt
          with r self Some q p near obtain prey where prey: "animals w tt = Some prey"
            and res1: "res = Returned (w\<lparr>animals := (animals w)
                 (u \<mapsto> self\<lparr>food := food self + (40 + food prey / 4)\<rparr>,
                  tt \<mapsto> prey\<lparr>alive := False\<rparr>)\<rparr>)"
            by (auto simp: reach_target_def split: option.splits)
          have "males_not_pregnant (w\<lparr>animals := (animals w)
                 (u \<mapsto> self\<lparr>food := food self + (40 + food prey / 4)\<rparr>,
                  tt \<mapsto> prey\<lparr>alive := False\<rparr>)\<rparr>)"
            using m ok mnp_at [OF m prey] by (intro mnp_put2) simp_all
          with res res1 show ?thesis by auto
        next
          case mate
          with r self Some q p near obtain mt where mt: "animals w tt = Some mt"
            and res1: "res = Carry_on (Some tt) (w\<lparr>animals := (animals w)(tt \<mapsto> mt\<lparr>pregs := 0.1\<rparr>)\<rparr>)"
            by (auto simp: reach_target_def split: option.splits)
          from mate(3) mt have "gender mt = Female"
            by (simp add: mate_ready_def can_mate_def)
          then have "males_not_pregnant (w\<lparr>animals := (animals w)(tt \<mapsto> mt\<lparr>pregs := 0.1\<rparr>)\<rparr>)"
            using m by (intro mnp_put) simp_all
          with res res1 show ?thesis by auto
        next
          case drop
          with r self res m Some q p near show ?thesis by (auto simp: reach_target_def)
        qed
      qed
    qed
  qed
qed

lemma get_target_reach:
  assumes "get_target r cfg u w = Inr (t, w')"
  shows "\<exists>res. reach_target cfg u w = Inr res \<and> (res = Returned w' \<or> (\<exists>t'. res = Carry_on t' w'))"
proof -
  from assms obtain self p where "animals w u = Some self" "pos self = Some p"
    by (auto simp: get_target_def split: option.splits)
  with assms obtain res where res: "reach_target cfg u w = Inr res"
    and out: "(case res of Returned w1 \<Rightarrow> Inr (None, w1)
               | Carry_on None w1 \<Rightarrow>
                   Inr (search r cfg u (cell_shuffle r u (get_neighbors w p 3)) w1, w1)
               | Carry_on (Some t') w1 \<Rightarrow> Inr (Some t', w1))
              = (Inr (t, w') :: error + (uid option \<times> world))"
    by (auto simp: get_target_def Let_def bind_Inr)
  from out have "res = Returned w' \<or> (\<exists>t'. res = Carry_on t' w')"
    by (cases res) (auto split: option.splits)
  with res show ?thesis by blast
qed

lemma mnp_get_target:
  assumes "get_target r cfg u w = Inr (t, w')" "males_not_pregnant w"
  shows "males_not_pregnant w'"
  using get_target_reach [OF assms(1)] mnp_reach_target [OF _ assms(2)] by blast

lemma mnp_set_target: "males_not_pregnant w \<Longrightarrow> males_not_pregnant (set_target u t w)"
  by (auto simp: set_target_def males_not_pregnant_def split: option.splits)

lemma mnp_move_to_target:
  assumes mv: "move_to_target u w = Inr w'" and m: "males_not_pregnant w"
  shows "males_not_pregnant w'"
proof (cases "animals w u")
  case None
  with mv show ?thesis by (simp add: move_to_target_def)
next
  case a: (Some a)
  show ?thesis
  proof (cases "target a")
    case None
    with mv a have "w' = w" by (simp add: move_to_target_def)
    with m show ?thesis by simp
  next
    case t: (Some t)
    show ?thesis
    proof (cases "obj_pos w t")
      case None
      with mv a t have "w' = set_target u None w" by (simp add: move_to_target_def)
      with m show ?thesis by (simp add: mnp_set_target)
    next
      case q: (Some q)
      show ?thesis
      proof (cases "pos a")
        case None
        with mv a t q show ?thesis by (simp add: move_to_target_def)
      next
        case (Some p)
        with mv a t q have
          "move_agent u (fst (calc_move (fst p) (snd p) (fst q) (snd q) (speed a))) w = Inr w'"
          by (simp add: move_to_target_def)
        from mnp_move_agent [OF this m] show ?thesis .
      qed
    qed
  qed
qed

lemma mnp_resolve_and_move:
  assumes "resolve_and_move r cfg u w = Inr w'" "males_not_pregnant w"
  shows "males_not_pregnant w'"
proof -
  from assms(1) obtain t w1 where g: "get_target r cfg u w = Inr (t, w1)"
    and mv: "move_to_target u (set_target u t w1) = Inr w'"
    by (auto simp: resolve_and_move_def bind_Inr)
  from mnp_get_target [OF g assms(2)] have "males_not_pregnant (set_target u t w1)"
    by (rule mnp_set_target)
  from mnp_move_to_target [OF mv this] show ?thesis .
qed

lemma mnp_animal_step:
  assumes st: "animal_step r cfg u w = Inr w'" and m: "males_not_pregnant w"
  shows "males_not_pregnant w'"
proof (cases "animals w u")
  case None
  with st show ?thesis by (simp add: animal_step_def)
next
  case a: (Some a)
  define a1 where "a1 = a\<lparr>food := food a - FOOD_PER_TICK cfg, age := age a + AGE_T cfg\<rparr>"
  define w1 where "w1 = w\<lparr>animals := (animals w)(u \<mapsto> a1)\<rparr>"
  have "gender a1 = Male \<longrightarrow> pregs a1 = 0"
    using mnp_at [OF m a] by (simp add: a1_def)
  then have m1: "males_not_pregnant w1"
    unfolding w1_def by (rule mnp_put [OF m])
  show ?thesis
  proof (cases "alive a")
    case False
    with st a have "kill u w = Inr w'" by (simp add: animal_step_def)
    from mnp_kill [OF this m] show ?thesis .
  next
    case True
    show ?thesis
    proof (cases "food a1 \<le> 0 \<or> age a1 > max_age a1")
      case dead: True
      with st a True have "kill u w1 = Inr w'"
        by (auto simp: animal_step_def Let_def a1_def w1_def split: if_splits)
      from mnp_kill [OF this m1] show ?thesis .
    next
      case False
      with st a True have
        "bind (pregnancy r cfg u w1) (\<lambda>w2. bind (birthday u w2) (resolve_and_move r cfg u)) = Inr w'"
        by (simp add: animal_step_def Let_def a1_def w1_def)
      then obtain w2 w3 where p: "pregnancy r cfg u w1 = Inr w2"
        and b: "birthday u w2 = Inr w3" and rm: "resolve_and_move r cfg u w3 = Inr w'"
        by (auto simp: bind_Inr)
      from mnp_resolve_and_move [OF rm mnp_birthday [OF b mnp_pregnancy [OF p m1]]]
      show ?thesis .
    qed
  qed
qed

lemma mnp_run_agents:
  "run_agents r cfg ks w = Inr w' \<Longrightarrow> males_not_pregnant w \<Longrightarrow> males_not_pregnant w'"
proof (induction ks arbitrary: w)
  case Nil
  then show ?case by simp
next
  case (Cons k ks)
  show ?case
  proof (cases "k \<in> set (schedule w)")
    case True
    with Cons.prems(1) obtain w1 where s: "animal_step r cfg k w = Inr w1"
      and rest: "run_agents r cfg ks w1 = Inr w'"
      by (auto simp: bind_Inr)
    from Cons.IH [OF rest mnp_animal_step [OF s Cons.prems(2)]] show ?thesis .
  next
    case False
    with Cons.prems(1) have "run_agents r cfg ks w = Inr w'" by simp
    from Cons.IH [OF this Cons.prems(2)] show ?thesis .
  qed
qed

lemma mnp_model_step:
  assumes "model_step r cfg w = Inr w'" "males_not_pregnant w"
  shows "males_not_pregnant w'"
proof -
  have "males_not_pregnant (begin_tick w)"
    using mnp_same [OF animals_begin_tick assms(2)] .
  with assms(1) show ?thesis
    by (simp add: model_step_def Let_def mnp_run_agents)
qed

lemma mnp_run:
  "run cfg rs w = Inr w' \<Longrightarrow> males_not_pregnant w \<Longrightarrow> males_not_pregnant w'"
proof (induction rs arbitrary: w)
  case Nil
  then show ?case by simp
next
  case (Cons r rs)
  from Cons.prems(1) obtain w1 where s: "model_step r cfg w = Inr w1"
    and rest: "run cfg rs w1 = Inr w'"
    by (auto simp: bind_Inr)
  from Cons.IH [OF rest mnp_model_step [OF s Cons.prems(2)]] show ?case .
qed

lemma mnp_create_patches:
  "create_patches r cfg xys w = Inr w' \<Longrightarrow> males_not_pregnant w \<Longrightarrow> males_not_pregnant w'"
proof (induction xys arbitrary: w)
  case Nil
  then show ?case by simp
next
  case (Cons xy xys)
  from Cons.prems(1) obtain w1 where
    p: "place_agent (last_uid w + 1) (real (fst xy), real (snd xy))
          (w\<lparr>last_uid := last_uid w + 1,
             patches := (patches w)(last_uid w + 1 \<mapsto> new_patch r cfg (last_uid w + 1))\<rparr>) = Inr w1"
    and rest: "create_patches r cfg xys w1 = Inr w'"
    by (auto simp: bind_Inr Let_def)
  have "males_not_pregnant w1"
    using mnp_place_agent [OF p] Cons.prems(2) by simp
  from Cons.IH [OF rest this] show ?case .
qed

lemma mnp_create_animals:
  "create_animals r cfg n sp w = Inr w' \<Longrightarrow> males_not_pregnant w \<Longrightarrow> males_not_pregnant w'"
proof (induction n arbitrary: w)
  case 0
  then show ?case by simp
next
  case (Suc n)
  from Suc.prems(1) obtain w1 where
    c: "create_baby r cfg (of_int (start_x r (last_uid w + 1))) (of_int (start_y r (last_uid w + 1)))
          (of_int (start_age r (last_uid w + 1))) sp w = Inr w1"
    and rest: "create_animals r cfg n sp w1 = Inr w'"
    by (auto simp: bind_Inr Let_def)
  from Suc.IH [OF rest mnp_create_baby [OF c Suc.prems(2)]] show ?case .
qed

lemma mnp_Prey_model:
  assumes "Prey_model r cfg prey_n tiger_n width height = Inr w"
  shows "males_not_pregnant w"
proof -
  have e: "males_not_pregnant (empty_world width height)"
    by (simp add: males_not_pregnant_def empty_world_def)
  from assms obtain w1 w2 where
    p: "create_patches r cfg (List.product [0..<width] [0..<height]) (empty_world width height) = Inr w1"
    and a: "create_animals r cfg prey_n Prey w1 = Inr w2"
    and t: "create_animals r cfg tiger_n Tiger w2 = Inr w"
    by (auto simp: Prey_model_def bind_Inr)
  from mnp_create_animals [OF t mnp_create_animals [OF a mnp_create_patches [OF p e]]]
  show ?thesis .
qed

text \<open>
  C9. In every state reached from a constructed model by any number of ticks, under any
  answers of the random module, every animal whose gender is Male has \<open>pregs = 0\<close>:
  construction and birth create animals with \<open>pregs = 0\<close>, mating sets \<open>pregs\<close> only on a
  target that satisfies \<open>can_mate\<close> (hence a female), and the pregnancy block changes \<open>pregs\<close>
  only where it is already nonzero.
\<close>

theorem male_never_pregnant:
  assumes "Prey_model r cfg prey_n tiger_n width height = Inr w0"
    and "run cfg rs w0 = Inr w"
    and "animals w u = Some a"
    and "gender a = Male"
  shows "pregs a = 0"
  using mnp_at [OF mnp_run [OF assms(2) mnp_Prey_model [OF assms(1)]] assms(3,4)] .

lemma male_run:
  "\<exists>w0 w a. Prey_model (plain_rand (\<lambda>u. Male)) default_config 1 1 1 1 = Inr w0 \<and>
     run default_config [plain_rand (\<lambda>u. Male)] w0 = Inr w \<and>
     animals w 2 = Some a \<and> gender a = Male \<and> alive a"
  by (simp add: model_eval)

theorem male_never_pregnant_witness:
  "\<exists>w0 w a. Prey_model (plain_rand (\<lambda>u. Male)) default_config 1 1 1 1 = Inr w0 \<and>
     run default_config [plain_rand (\<lambda>u. Male)] w0 = Inr w \<and>
     animals w 2 = Some a \<and> gender a = Male \<and> pregs a = 0"
proof -
  from male_run obtain w0 w a where
    "Prey_model (plain_rand (\<lambda>u. Male)) default_config 1 1 1 1 = Inr w0"
    "run default_config [plain_rand (\<lambda>u. Male)] w0 = Inr w"
    "animals w 2 = Some a" "gender a = Male"
    by blast
  with male_never_pregnant [of "plain_rand (\<lambda>u. Male)" default_config 1 1 1 1 w0 "[plain_rand (\<lambda>u. Male)]" w 2 a]
  show ?thesis by blast
qed

subsection \<open>Predation\<close>

lemma tiger_feeds:
  assumes "animals w u = Some self" "species self = Tiger" "target self = Some t"
    and "animals w t = Some prey" "species prey = Prey"
    and "pos self = Some p" "pos prey = Some q" "get_distance p q < 0.5" "food self < 80"
  shows "get_target r cfg u w =
           Inr (None, w\<lparr>animals := (animals w)
                  (u \<mapsto> self\<lparr>food := food self + (40 + food prey / 4)\<rparr>,
                   t \<mapsto> prey\<lparr>alive := False\<rparr>)\<rparr>)"
  using assms
  by (simp add: get_target_def reach_target_def obj_pos_def has_species_def bind_def)

lemma tiger_feeds_step:
  assumes "animals w u = Some self" "species self = Tiger" "target self = Some t"
    and "animals w t = Some prey" "species prey = Prey"
    and "pos self = Some p" "pos prey = Some q" "get_distance p q < 0.5" "food self < 80"
  shows "resolve_and_move r cfg u w =
           Inr (w\<lparr>animals := (animals w)
                  (t \<mapsto> prey\<lparr>alive := False\<rparr>,
                   u \<mapsto> self\<lparr>food := food self + (40 + food prey / 4), target := None\<rparr>)\<rparr>)"
proof -
  from assms have ut: "u \<noteq> t" by auto
  show ?thesis
    unfolding resolve_and_move_def tiger_feeds [OF assms]
    using ut by (simp add: bind_def set_target_def move_to_target_def fun_upd_twist)
qed

lemma create_baby_frame:
  assumes "create_baby r cfg x y ag sp w = Inr w'"
  shows "last_uid w' = last_uid w + 1 \<and> (\<forall>v. v \<le> last_uid w \<longrightarrow> animals w' v = animals w v) \<and>
         step_num w' = step_num w \<and> set (space w) \<subseteq> set (space w') \<and>
         set (schedule w) \<subseteq> set (schedule w')"
  using assms
  by (auto simp: create_baby_def Let_def bind_Inr place_agent_def set_pos_def split: if_splits)

lemma create_babies_frame:
  "create_babies r cfg n p sp w = Inr w' \<Longrightarrow>
   last_uid w \<le> last_uid w' \<and> (\<forall>v. v \<le> last_uid w \<longrightarrow> animals w' v = animals w v) \<and>
   step_num w' = step_num w \<and> set (space w) \<subseteq> set (space w') \<and>
   set (schedule w) \<subseteq> set (schedule w')"
proof (induction n arbitrary: w)
  case 0
  then show ?case by simp
next
  case (Suc n)
  from Suc.prems obtain w1 where b: "create_baby r cfg (fst p) (snd p) 0 sp w = Inr w1"
    and c: "create_babies r cfg n p sp w1 = Inr w'"
    by (auto simp: bind_Inr)
  from create_baby_frame [OF b] Suc.IH [OF c] show ?case
    by (auto simp: subset_iff)
qed

lemma pregnancy_frame:
  assumes "pregnancy r cfg u w = Inr w'" "animals w u = Some a" "u \<le> last_uid w"
  shows "step_num w' = step_num w \<and> set (space w) \<subseteq> set (space w') \<and>
         set (schedule w) \<subseteq> set (schedule w') \<and>
         (\<forall>v. v \<le> last_uid w \<longrightarrow> v \<noteq> u \<longrightarrow> animals w' v = animals w v) \<and>
         (\<exists>a'. animals w' u = Some a' \<and>
            food a' = food a - (if pregs a \<noteq> 0 then FOOD_PER_TICK cfg / 3 else 0) \<and>
            target a' = target a \<and> pos a' = pos a \<and> species a' = species a \<and>
            max_age a' = max_age a \<and> age a' = age a \<and> alive a' = alive a)"
proof (cases "pregs a = 0")
  case True
  with assms show ?thesis by (simp add: pregnancy_def)
next
  case False
  let ?a1 = "a\<lparr>food := food a - FOOD_PER_TICK cfg / 3, pregs := pregs a + AGE_T cfg\<rparr>"
  show ?thesis
  proof (cases "pregs a + AGE_T cfg \<ge> 1")
    case no: False
    with False assms have "w' = w\<lparr>animals := (animals w)(u \<mapsto> ?a1)\<rparr>"
      by (simp add: pregnancy_def Let_def)
    with False show ?thesis by simp
  next
    case birth: True
    let ?a2 = "?a1\<lparr>pregs := 0\<rparr>"
    let ?w1 = "w\<lparr>animals := (animals w)(u \<mapsto> ?a2)\<rparr>"
    show ?thesis
    proof (cases "pos a")
      case None
      with False birth assms have "w' = ?w1"
        by (simp add: pregnancy_def Let_def split: if_splits)
      with False None show ?thesis by simp
    next
      case (Some p)
      with False birth assms obtain n where
        c: "create_babies r cfg n p (species a) ?w1 = Inr w'"
        by (auto simp: pregnancy_def Let_def)
      from create_babies_frame [OF c] assms(3) False Some show ?thesis
        by simp
    qed
  qed
qed

lemma set_speed_total: "max_age a \<noteq> 0 \<Longrightarrow> \<exists>s. set_speed a = Inr (a\<lparr>speed := s\<rparr>)"
proof -
  assume "max_age a \<noteq> 0"
  then obtain s where "get_speed (age a) (max_age a) (max_speed a) = Inr s"
    by (auto simp: get_speed_def Let_def)
  then show ?thesis by (auto simp: set_speed_def bind_def)
qed

lemma birthday_frame:
  assumes "animals w u = Some a" "max_age a \<noteq> 0"
  shows "\<exists>a'. birthday u w = Inr (w\<lparr>animals := (animals w)(u \<mapsto> a')\<rparr>) \<and>
           food a' = food a \<and> target a' = target a \<and> pos a' = pos a \<and>
           species a' = species a"
proof (cases "step_num w mod 10 = 0")
  case True
  from set_speed_total [OF assms(2)] obtain s where "set_speed a = Inr (a\<lparr>speed := s\<rparr>)" ..
  with True assms(1) show ?thesis
    by (intro exI [of _ "a\<lparr>speed := s\<rparr>"]) (simp add: birthday_def bind_def)
next
  case False
  have "w\<lparr>animals := (animals w)(u \<mapsto> a)\<rparr> = w"
    using assms(1) by (simp add: fun_upd_idem)
  with False show ?thesis
    by (intro exI [of _ a]) (simp add: birthday_def)
qed

lemma hunt_state:
  "\<exists>w1 self prey.
     hunt_run 1 = Inr w1 \<and>
     animals w1 3 = Some self \<and> species self = Tiger \<and> alive self \<and> target self = Some 2 \<and>
     animals w1 2 = Some prey \<and> species prey = Prey \<and>
     pos self = Some (0, 0) \<and> pos prey = Some (0, 0) \<and>
     2 \<in> set (space w1) \<and> 2 \<in> set (schedule w1) \<and> 3 \<le> last_uid w1 \<and> 2 \<le> last_uid w1 \<and>
     0 < food self - FOOD_PER_TICK default_config \<and>
     age self + AGE_T default_config \<le> max_age self \<and> max_age self \<noteq> 0 \<and>
     pregs self = 0 \<and> food self - FOOD_PER_TICK default_config < 80"
  by (simp add: model_eval hunt_run_def)

text \<open>
  C3. Let a live tiger, placed with a prey target at distance below 0.5, survive the food and
  age update of its step (\<open>food > FOOD_PER_TICK\<close>, \<open>age + AGE_T \<le> max_age\<close>), and let its food
  after the step's consumption \<open>cost\<close> (\<open>FOOD_PER_TICK\<close>, and a third of it more when pregnant)
  be below 80. Then the step feeds: it ends with the tiger's food at
  \<open>food - cost + (40 + food prey / 4)\<close>, its target cleared and the prey marked not alive. The
  prey is not removed: it keeps its position and stays in the space and in the schedule. The
  only other outcome is an exception raised while the tiger gives birth in this step.
\<close>

theorem tiger_feeding:
  assumes "animals w u = Some self" "species self = Tiger" "alive self"
    and "target self = Some t" "animals w t = Some prey" "species prey = Prey"
    and "pos self = Some p" "pos prey = Some q" "get_distance p q < 0.5"
    and "t \<in> set (space w)" "t \<in> set (schedule w)" "u \<le> last_uid w" "t \<le> last_uid w"
    and "0 < food self - FOOD_PER_TICK cfg" "age self + AGE_T cfg \<le> max_age self"
    and "max_age self \<noteq> 0"
    and "cost = FOOD_PER_TICK cfg + (if pregs self \<noteq> 0 then FOOD_PER_TICK cfg / 3 else 0)"
    and "food self - cost < 80"
  shows "(\<exists>w' self'. animal_step r cfg u w = Inr w' \<and> animals w' u = Some self' \<and>
            food self' = food self - cost + (40 + food prey / 4) \<and> target self' = None \<and>
            pos self' = Some p \<and> animals w' t = Some (prey\<lparr>alive := False\<rparr>) \<and>
            t \<in> set (space w') \<and> t \<in> set (schedule w')) \<or>
         (pregs self \<noteq> 0 \<and> 1 \<le> pregs self + AGE_T cfg \<and> (\<exists>e. animal_step r cfg u w = Inl e))"
proof -
  let ?a1 = "self\<lparr>food := food self - FOOD_PER_TICK cfg, age := age self + AGE_T cfg\<rparr>"
  let ?w1 = "w\<lparr>animals := (animals w)(u \<mapsto> ?a1)\<rparr>"
  from assms(2,6,1,5) have ut: "t \<noteq> u" by auto
  have step: "animal_step r cfg u w =
      bind (pregnancy r cfg u ?w1) (\<lambda>w2. bind (birthday u w2) (resolve_and_move r cfg u))"
    using assms(1,3,14,15) by (simp add: animal_step_def Let_def)
  show ?thesis
  proof (cases "pregnancy r cfg u ?w1")
    case (Inl e)
    then have "pregs self \<noteq> 0 \<and> 1 \<le> pregs self + AGE_T cfg"
      by (auto simp: pregnancy_def Let_def split: if_splits option.splits)
    with Inl step show ?thesis by (simp add: bind_def)
  next
    case (Inr w2)
    have a1: "animals ?w1 u = Some ?a1" "u \<le> last_uid ?w1" by (simp_all add: assms(12))
    from pregnancy_frame [OF Inr a1] obtain a2 where
      f2: "set (space w) \<subseteq> set (space w2)" "set (schedule w) \<subseteq> set (schedule w2)"
        "\<forall>v. v \<le> last_uid w \<longrightarrow> v \<noteq> u \<longrightarrow> animals w2 v = animals ?w1 v"
      and a2: "animals w2 u = Some a2" "food a2 = food self - cost" "target a2 = Some t"
        "pos a2 = Some p" "species a2 = Tiger" "max_age a2 = max_age self"
      using assms(2,4,7,17) by auto
    from f2(3) assms(13,5) ut have p2: "animals w2 t = Some prey" by simp
    from birthday_frame [OF a2(1)] a2(6) assms(16) obtain a3 where
      b: "birthday u w2 = Inr (w2\<lparr>animals := (animals w2)(u \<mapsto> a3)\<rparr>)"
      and a3: "food a3 = food a2" "target a3 = target a2" "pos a3 = pos a2" "species a3 = species a2"
      by auto
    let ?w3 = "w2\<lparr>animals := (animals w2)(u \<mapsto> a3)\<rparr>"
    have "resolve_and_move r cfg u ?w3 =
           Inr (?w3\<lparr>animals := (animals ?w3)
                  (t \<mapsto> prey\<lparr>alive := False\<rparr>,
                   u \<mapsto> a3\<lparr>food := food a3 + (40 + food prey / 4), target := None\<rparr>)\<rparr>)"
      by (rule tiger_feeds_step [where p = p and q = q])
         (use a2 a3 p2 ut assms(6,8,9,18) in simp_all)
    with step Inr b f2(1,2) assms(10,11) a2 a3 ut show ?thesis
      by (auto simp: bind_def)
  qed
qed

theorem tiger_feeding_witness:
  "\<exists>w1 w' self prey self'.
     hunt_run 1 = Inr w1 \<and> animals w1 3 = Some self \<and> animals w1 2 = Some prey \<and>
     animal_step (plain_rand one_male) default_config 3 w1 = Inr w' \<and>
     animals w' 3 = Some self' \<and>
     food self' = food self - FOOD_PER_TICK default_config + (40 + food prey / 4) \<and>
     target self' = None \<and> animals w' 2 = Some (prey\<lparr>alive := False\<rparr>) \<and>
     2 \<in> set (space w') \<and> 2 \<in> set (schedule w')"
proof -
  from hunt_state obtain w1 self prey where
    h: "hunt_run 1 = Inr w1"
     "animals w1 3 = Some self" "species self = Tiger" "alive self" "target self = Some 2"
     "animals w1 2 = Some prey" "species prey = Prey"
     "pos self = Some (0, 0)" "pos prey = Some (0, 0)"
     "2 \<in> set (space w1)" "2 \<in> set (schedule w1)" "3 \<le> last_uid w1" "2 \<le> last_uid w1"
     "0 < food self - FOOD_PER_TICK default_config"
     "age self + AGE_T default_config \<le> max_age self" "max_age self \<noteq> 0"
     and z: "pregs self = 0" and f: "food self - FOOD_PER_TICK default_config < 80"
    by blast
  have d: "get_distance (0, 0) (0, 0) < 0.5" by (simp add: get_distance_def)
  have c: "FOOD_PER_TICK default_config =
      FOOD_PER_TICK default_config + (if pregs self \<noteq> 0 then FOOD_PER_TICK default_config / 3 else 0)"
    using z by simp
  from tiger_feeding [OF h(2-9) d h(10-16) c f, of "plain_rand one_male"] z
  obtain w' self' where
    "animal_step (plain_rand one_male) default_config 3 w1 = Inr w'" "animals w' 3 = Some self'"
    "food self' = food self - FOOD_PER_TICK default_config + (40 + food prey / 4)"
    "target self' = None" "animals w' 2 = Some (prey\<lparr>alive := False\<rparr>)"
    "2 \<in> set (space w')" "2 \<in> set (schedule w')"
    by auto
  with h(1,2,6) show ?thesis by blast
qed

text \<open>
  One prey and one tiger on a single patch, default constants: the tiger feeds in the second
  tick, and at the end of that tick the prey is still placed, indexed and scheduled.
\<close>

theorem fed_on_prey_stays:
  "map_option target (animal_at 3 (hunt_run 1)) = Some (Some 2) \<and>
   map_option food (animal_at 3 (hunt_run 1)) = Some (497 / 10) \<and>
   map_option pos (animal_at 3 (hunt_run 1)) = Some (Some (0, 0)) \<and>
   map_option pos (animal_at 2 (hunt_run 1)) = Some (Some (0, 0)) \<and>
   map_option food (animal_at 3 (hunt_run 2)) = Some (377 / 4) \<and>
   map_option target (animal_at 3 (hunt_run 2)) = Some None \<and>
   map_option alive (animal_at 2 (hunt_run 2)) = Some False \<and>
   map_option pos (animal_at 2 (hunt_run 2)) = Some (Some (0, 0)) \<and>
   map_option space (world_of (hunt_run 2)) = Some [1, 2, 3] \<and>
   map_option schedule (world_of (hunt_run 2)) = Some [2, 3] \<and>
   map_option Prey_count (world_of (hunt_run 2)) = Some 1"
  by (simp add: model_eval hunt_run_def)

subsection \<open>Removal of dead animals\<close>

lemma kill_removes:
  assumes "animals w u = Some a" "pos a = Some p" "u \<in> set (space w)" "u \<in> set (schedule w)"
  shows "\<exists>w' a'. kill u w = Inr w' \<and> u \<notin> set (space w') \<and> u \<notin> set (schedule w') \<and>
           animals w' u = Some a' \<and> pos a' = None"
  using assms by (simp add: kill_def Let_def remove_agent_def bind_def set_pos_def)

text \<open>
  C4. An animal that is placed, indexed and scheduled, and that its own step finds marked not
  alive, starved (\<open>food \<le> 0\<close> after the tick's consumption) or past \<open>max_age\<close>, is removed
  from the space and from the schedule by that step, and loses its position. A prey fed
  on after its own step of a tick is still there when the tick ends.
\<close>

theorem dead_removed_at_own_turn:
  assumes "animals w u = Some a" "pos a = Some p" "u \<in> set (space w)" "u \<in> set (schedule w)"
    and "\<not> alive a \<or> food a - FOOD_PER_TICK cfg \<le> 0 \<or> age a + AGE_T cfg > max_age a"
  shows "\<exists>w' a'. animal_step r cfg u w = Inr w' \<and> u \<notin> set (space w') \<and>
           u \<notin> set (schedule w') \<and> animals w' u = Some a' \<and> pos a' = None"
proof (cases "alive a")
  case False
  with kill_removes [OF assms(1-4)] assms(1) show ?thesis by (simp add: animal_step_def)
next
  case True
  let ?a1 = "a\<lparr>food := food a - FOOD_PER_TICK cfg, age := age a + AGE_T cfg\<rparr>"
  let ?w1 = "w\<lparr>animals := (animals w)(u \<mapsto> ?a1)\<rparr>"
  have k: "\<exists>w' a'. kill u ?w1 = Inr w' \<and> u \<notin> set (space w') \<and> u \<notin> set (schedule w') \<and>
           animals w' u = Some a' \<and> pos a' = None"
    by (rule kill_removes [where a = ?a1 and p = p]) (use assms in simp_all)
  from True assms(5) have "food ?a1 \<le> 0 \<or> age ?a1 > max_age ?a1" by simp
  with k assms(1) True show ?thesis by (auto simp: animal_step_def Let_def)
qed

lemma dead_state:
  "\<exists>w prey.
     bind (Prey_model (plain_rand one_male) default_config 1 2 1 1)
          (run default_config [plain_rand one_male, plain_rand one_male]) = Inr w \<and>
     animals w 2 = Some prey \<and> \<not> alive prey \<and> pos prey = Some (0, 0) \<and>
     space w = [1, 2, 3, 4] \<and> schedule w = [2, 3, 4]"
  by (simp add: model_eval)

theorem dead_removed_at_own_turn_witness:
  "\<exists>w w' a'.
     bind (Prey_model (plain_rand one_male) default_config 1 2 1 1)
          (run default_config [plain_rand one_male, plain_rand one_male]) = Inr w \<and>
     animal_step (plain_rand one_male) default_config 2 w = Inr w' \<and>
     2 \<notin> set (space w') \<and> 2 \<notin> set (schedule w') \<and> animals w' 2 = Some a' \<and> pos a' = None"
proof -
  from dead_state obtain w prey where
    h: "bind (Prey_model (plain_rand one_male) default_config 1 2 1 1)
          (run default_config [plain_rand one_male, plain_rand one_male]) = Inr w"
     "animals w 2 = Some prey" "\<not> alive prey" "pos prey = Some (0, 0)"
     "space w = [1, 2, 3, 4]" "schedule w = [2, 3, 4]"
    by blast
  have "2 \<in> set (space w)" "2 \<in> set (schedule w)" using h(5,6) by simp_all
  from dead_removed_at_own_turn [OF h(2) h(4) this, of default_config "plain_rand one_male"] h(3) h(1)
  show ?thesis by blast
qed

text \<open>
  One prey and two tigers on a single patch: the prey is marked not alive in the second tick
  after its own step, and goes into the third tick placed, indexed and scheduled.
\<close>

theorem dead_prey_survives_tick:
  "map_option alive (animal_at 2 (pack_run 1)) = Some True \<and>
   map_option alive (animal_at 2 (pack_run 2)) = Some False \<and>
   map_option pos (animal_at 2 (pack_run 2)) = Some (Some (0, 0)) \<and>
   map_option space (world_of (pack_run 2)) = Some [1, 2, 3, 4] \<and>
   map_option schedule (world_of (pack_run 2)) = Some [2, 3, 4] \<and>
   map_option step_num (world_of (pack_run 2)) = Some 2 \<and>
   map_option space (world_of (pack_run 3)) = Some [1, 3, 4] \<and>
   map_option schedule (world_of (pack_run 3)) = Some [3, 4]"
  by (simp add: model_eval pack_run_def)

subsection \<open>Feeding on a dead prey\<close>

lemma mating:
  assumes "animals w u = Some self" "target self = Some t" "u \<noteq> t"
    and "animals w t = Some mate" "species mate = species self" "can_mate mate"
    and "pos self = Some p" "pos mate = Some q" "get_distance p q < 0.5"
  shows "get_target r cfg u w =
           Inr (Some t, w\<lparr>animals := (animals w)(t \<mapsto> mate\<lparr>pregs := 0.1\<rparr>)\<rparr>)"
  using assms
  by (cases "species self")
     (simp_all add: get_target_def reach_target_def obj_pos_def has_species_def bind_def
        is_grass_def mate_ready_def)

text \<open>
  C10. Feeding does not ask whether the prey is alive: a tiger with \<open>food < 80\<close> whose target
  is a prey at distance below 0.5 that is already marked not alive gains \<open>40 + food prey / 4\<close>,
  marks it not alive again and clears its target. With one prey and two tigers on a single
  patch, both tigers gain \<open>40 + (97 / 5) / 4\<close> from the one prey in the second tick.
\<close>

theorem dead_prey_eaten_again:
  "(animals w u = Some self \<longrightarrow> species self = Tiger \<longrightarrow> target self = Some t \<longrightarrow>
    animals w t = Some prey \<longrightarrow> species prey = Prey \<longrightarrow> \<not> alive prey \<longrightarrow>
    pos self = Some p \<longrightarrow> pos prey = Some q \<longrightarrow> get_distance p q < 0.5 \<longrightarrow> food self < 80 \<longrightarrow>
    resolve_and_move r cfg u w =
      Inr (w\<lparr>animals := (animals w)
             (t \<mapsto> prey\<lparr>alive := False\<rparr>,
              u \<mapsto> self\<lparr>food := food self + (40 + food prey / 4), target := None\<rparr>)\<rparr>))
   \<and> (\<exists>w1 w2 prey1 prey2 a3 a4 b3 b4.
        bind (Prey_model (plain_rand one_male) default_config 1 2 1 1)
          (run default_config [plain_rand one_male]) = Inr w1 \<and>
        model_step (plain_rand one_male) default_config w1 = Inr w2 \<and>
        animals w1 2 = Some prey1 \<and> alive prey1 \<and> food prey1 = 97 / 10 \<and>
        animals w1 3 = Some a3 \<and> food a3 = 497 / 10 \<and>
        animals w1 4 = Some a4 \<and> food a4 = 497 / 10 \<and>
        animals w2 2 = Some prey2 \<and> \<not> alive prey2 \<and> food prey2 = 97 / 5 \<and>
        animals w2 3 = Some b3 \<and> food b3 = 497 / 10 - 3 / 10 + (40 + (97 / 5) / 4) \<and>
        animals w2 4 = Some b4 \<and> food b4 = 497 / 10 - 3 / 10 + (40 + (97 / 5) / 4) \<and>
        Prey_count w1 = 1 \<and> Prey_count w2 = 1)"
proof (intro conjI impI)
  assume "animals w u = Some self" "species self = Tiger" "target self = Some t"
    "animals w t = Some prey" "species prey = Prey" "\<not> alive prey"
    "pos self = Some p" "pos prey = Some q" "get_distance p q < 0.5" "food self < 80"
  then show "resolve_and_move r cfg u w =
      Inr (w\<lparr>animals := (animals w)
             (t \<mapsto> prey\<lparr>alive := False\<rparr>,
              u \<mapsto> self\<lparr>food := food self + (40 + food prey / 4), target := None\<rparr>)\<rparr>)"
    by (intro tiger_feeds_step)
next
  show "\<exists>w1 w2 prey1 prey2 a3 a4 b3 b4.
        bind (Prey_model (plain_rand one_male) default_config 1 2 1 1)
          (run default_config [plain_rand one_male]) = Inr w1 \<and>
        model_step (plain_rand one_male) default_config w1 = Inr w2 \<and>
        animals w1 2 = Some prey1 \<and> alive prey1 \<and> food prey1 = 97 / 10 \<and>
        animals w1 3 = Some a3 \<and> food a3 = 497 / 10 \<and>
        animals w1 4 = Some a4 \<and> food a4 = 497 / 10 \<and>
        animals w2 2 = Some prey2 \<and> \<not> alive prey2 \<and> food prey2 = 97 / 5 \<and>
        animals w2 3 = Some b3 \<and> food b3 = 497 / 10 - 3 / 10 + (40 + (97 / 5) / 4) \<and>
        animals w2 4 = Some b4 \<and> food b4 = 497 / 10 - 3 / 10 + (40 + (97 / 5) / 4) \<and>
        Prey_count w1 = 1 \<and> Prey_count w2 = 1"
    by (simp add: model_eval)
qed

lemma second_tiger_state:
  "\<exists>wb self prey.
     bind (bind (bind (Prey_model (plain_rand one_male) default_config 1 2 1 1)
                   (run default_config [plain_rand one_male]))
              (\<lambda>w1. animal_step (plain_rand one_male) default_config 2 (begin_tick w1)))
          (animal_step (plain_rand one_male) default_config 3) = Inr wb \<and>
     animals wb 4 = Some self \<and> species self = Tiger \<and> target self = Some 2 \<and>
     animals wb 2 = Some prey \<and> species prey = Prey \<and> \<not> alive prey \<and>
     pos self = Some (0, 0) \<and> pos prey = Some (0, 0) \<and> food self < 80"
  by (simp add: model_eval)

theorem dead_prey_eaten_again_witness:
  "\<exists>wb self prey.
     bind (bind (bind (Prey_model (plain_rand one_male) default_config 1 2 1 1)
                   (run default_config [plain_rand one_male]))
              (\<lambda>w1. animal_step (plain_rand one_male) default_config 2 (begin_tick w1)))
          (animal_step (plain_rand one_male) default_config 3) = Inr wb \<and>
     animals wb 4 = Some self \<and> animals wb 2 = Some prey \<and> \<not> alive prey \<and>
     resolve_and_move (plain_rand one_male) default_config 4 wb =
       Inr (wb\<lparr>animals := (animals wb)
              (2 \<mapsto> prey\<lparr>alive := False\<rparr>,
               4 \<mapsto> self\<lparr>food := food self + (40 + food prey / 4), target := None\<rparr>)\<rparr>)"
proof -
  from second_tiger_state obtain wb self prey where
    h: "bind (bind (bind (Prey_model (plain_rand one_male) default_config 1 2 1 1)
                   (run default_config [plain_rand one_male]))
              (\<lambda>w1. animal_step (plain_rand one_male) default_config 2 (begin_tick w1)))
          (animal_step (plain_rand one_male) default_config 3) = Inr wb"
      "animals wb 4 = Some self" "species self = Tiger" "target self = Some 2"
      "animals wb 2 = Some prey" "species prey = Prey" "\<not> alive prey"
      "pos self = Some (0, 0)" "pos prey = Some (0, 0)" "food self < 80"
    by blast
  have d: "get_distance (0, 0) (0, 0) < 0.5" by (simp add: get_distance_def)
  from dead_prey_eaten_again [of wb 4 self 2 prey "(0, 0)" "(0, 0)" "plain_rand one_male" default_config]
    h d
  have "resolve_and_move (plain_rand one_male) default_config 4 wb =
       Inr (wb\<lparr>animals := (animals wb)
              (2 \<mapsto> prey\<lparr>alive := False\<rparr>,
               4 \<mapsto> self\<lparr>food := food self + (40 + food prey / 4), target := None\<rparr>)\<rparr>)"
    by blast
  with h(1,2,5,7) show ?thesis by blast
qed

subsection \<open>Mating\<close>

text \<open>
  C5. When the target of an animal is another animal of its species within distance 0.5 that
  satisfies \<open>can_mate\<close>, \<open>get_target\<close> sets the target's \<open>pregs\<close> to 0.1, changes nothing else
  (so the initiator's own \<open>pregs\<close> is unchanged) and returns the mate as the target: the
  searches that end in the wander rule are not run.
\<close>

theorem mate_is_kept:
  assumes "animals w u = Some self" "target self = Some t" "u \<noteq> t"
    and "animals w t = Some mate" "species mate = species self" "can_mate mate"
    and "pos self = Some p" "pos mate = Some q" "get_distance p q < 0.5"
  shows "get_target r cfg u w =
           Inr (Some t, w\<lparr>animals := (animals w)(t \<mapsto> mate\<lparr>pregs := 0.1\<rparr>)\<rparr>)"
  using assms by (rule mating)

lemma courting_state:
  "\<exists>w3 self mate.
     bind (Prey_model (plain_rand one_male) default_config 1 2 1 1)
          (run default_config (replicate 3 (plain_rand one_male))) = Inr w3 \<and>
     animals w3 4 = Some self \<and> target self = Some 3 \<and> animals w3 3 = Some mate \<and>
     species mate = species self \<and> can_mate mate \<and>
     pos self = Some (0, 0) \<and> pos mate = Some (0, 0)"
  by (simp add: model_eval)

theorem mate_is_kept_witness:
  "\<exists>w3 self mate.
     bind (Prey_model (plain_rand one_male) default_config 1 2 1 1)
          (run default_config (replicate 3 (plain_rand one_male))) = Inr w3 \<and>
     animals w3 4 = Some self \<and> animals w3 3 = Some mate \<and>
     get_target (plain_rand one_male) default_config 4 w3 =
           Inr (Some 3, w3\<lparr>animals := (animals w3)(3 \<mapsto> mate\<lparr>pregs := 0.1\<rparr>)\<rparr>)"
proof -
  from courting_state obtain w3 self mate where
    h: "bind (Prey_model (plain_rand one_male) default_config 1 2 1 1)
          (run default_config (replicate 3 (plain_rand one_male))) = Inr w3"
     "animals w3 4 = Some self" "target self = Some 3" "animals w3 3 = Some mate"
     "species mate = species self" "can_mate mate"
     "pos self = Some (0, 0)" "pos mate = Some (0, 0)"
    by blast
  have d: "get_distance (0, 0) (0, 0) < 0.5" by (simp add: get_distance_def)
  have n: "(4::nat) \<noteq> 3" by simp
  from mate_is_kept [OF h(2,3) n h(4-8) d, of "plain_rand one_male" default_config] h(1,2,4)
  show ?thesis by blast
qed

text \<open>
  After the tick in which the male tiger 4 mates with the tigress 3, his target is still the
  tigress, although the wander rule would have chosen the grass patch 1.
\<close>

theorem mate_not_dropped_for_wander:
  "map_option target (animal_at 4 (pack_run 3)) = Some (Some 3) \<and>
   map_option species (animal_at 4 (pack_run 3)) = Some Tiger \<and>
   map_option species (animal_at 3 (pack_run 3)) = Some Tiger \<and>
   map_option can_mate (animal_at 3 (pack_run 3)) = Some True \<and>
   map_option pos (animal_at 4 (pack_run 3)) = Some (Some (0, 0)) \<and>
   map_option pos (animal_at 3 (pack_run 3)) = Some (Some (0, 0)) \<and>
   map_sum id fst (bind (pack_run 3) (get_target (plain_rand one_male) default_config 4))
     = Inr (Some 3) \<and>
   map_option pregs (animal_at 3 (pack_run 4)) = Some (1 / 10) \<and>
   map_option pregs (animal_at 4 (pack_run 4)) = Some 0 \<and>
   map_option target (animal_at 4 (pack_run 4)) = Some (Some 3)"
  by (simp add: model_eval pack_run_def)

subsection \<open>Regrowth\<close>







lemma pending_munch:
  assumes "munch cfg u w = Inr w'" "step_num w < regrow_tick cfg w"
  shows "regrowth_pending (regrow_tick cfg w) u w'"
  using assms
  by (auto simp: regrowth_pending_def munch_def Let_def split: option.splits if_splits)

text \<open>
  The steps of the program and the grass: only \<open>munch\<close> changes it after the start of a tick.
\<close>

lemma same_grass_refl: "same_grass w w"
  by (simp add: same_grass_def)

lemma same_grass_trans: "same_grass w w1 \<Longrightarrow> same_grass w1 w2 \<Longrightarrow> same_grass w w2"
  by (simp add: same_grass_def)

lemma same_grass_fields [simp]:
  "same_grass w (w'\<lparr>animals := an\<rparr>) = same_grass w w'"
  "same_grass w (w'\<lparr>space := sp\<rparr>) = same_grass w w'"
  "same_grass w (w'\<lparr>schedule := sc\<rparr>) = same_grass w w'"
  "same_grass w (w'\<lparr>count := c\<rparr>) = same_grass w w'"
  "same_grass w (w'\<lparr>Prey_count := c\<rparr>) = same_grass w w'"
  "same_grass w (w'\<lparr>Tiger_count := c\<rparr>) = same_grass w w'"
  "same_grass w (w'\<lparr>last_uid := n\<rparr>) = same_grass w w'"
  by (simp_all add: same_grass_def grass_level_def fun_eq_iff)

lemma same_grass_set_pos: "same_grass w (set_pos u p w)"
  by (auto simp: set_pos_def same_grass_def grass_level_def fun_eq_iff split: option.splits)

lemma same_grass_set_pos': "same_grass w w' \<Longrightarrow> same_grass w (set_pos u p w')"
  using same_grass_trans [OF _ same_grass_set_pos] .

lemma same_grass_place_agent: "place_agent u p w = Inr w' \<Longrightarrow> same_grass w w'"
  using same_grass_set_pos' [of w "w\<lparr>space := space w @ [u]\<rparr>" u "Some p"]
  by (auto simp: place_agent_def same_grass_refl split: if_splits)

lemma same_grass_move_agent: "move_agent u p w = Inr w' \<Longrightarrow> same_grass w w'"
  by (auto simp: move_agent_def same_grass_set_pos split: if_splits)

lemma same_grass_remove_agent: "remove_agent u w = Inr w' \<Longrightarrow> same_grass w w'"
  using same_grass_set_pos' [of w "w\<lparr>space := removeAll u (space w)\<rparr>" u None]
  by (auto simp: remove_agent_def same_grass_refl split: if_splits)

lemma same_grass_kill: "kill u w = Inr w' \<Longrightarrow> same_grass w w'"
proof -
  assume k: "kill u w = Inr w'"
  then obtain a where a: "animals w u = Some a" by (auto simp: kill_def split: option.splits)
  let ?w1 = "if species a = Prey then w\<lparr>Prey_count := Prey_count w - 1\<rparr>
             else w\<lparr>Tiger_count := Tiger_count w - 1\<rparr>"
  from k a obtain w2 where r: "remove_agent u (?w1\<lparr>count := count ?w1 - 1\<rparr>) = Inr w2"
    and w': "w' = w2\<lparr>schedule := removeAll u (schedule w2)\<rparr>"
    by (auto simp: kill_def Let_def bind_Inr split: if_splits)
  have "same_grass w (?w1\<lparr>count := count ?w1 - 1\<rparr>)" by (simp add: same_grass_refl)
  from same_grass_trans [OF this same_grass_remove_agent [OF r]] show ?thesis
    by (simp add: w')
qed

lemma same_grass_create_baby:
  assumes "create_baby r cfg x y ag sp w = Inr w'"
  shows "same_grass w w'"
proof -
  from assms obtain a w4 where
    p: "place_agent (last_uid w + 1) (x, y)
             ((if sp = Prey then w\<lparr>last_uid := last_uid w + 1, Prey_count := Prey_count w + 1\<rparr>
               else w\<lparr>last_uid := last_uid w + 1, Tiger_count := Tiger_count w + 1\<rparr>)
              \<lparr>animals := (animals w)(last_uid w + 1 \<mapsto> a),
                schedule := schedule w @ [last_uid w + 1]\<rparr>) = Inr w4"
    and w': "w' = w4\<lparr>count := count w4 + 1\<rparr>"
    by (auto simp: create_baby_def Let_def bind_Inr split: if_splits)
  have "same_grass w
          ((if sp = Prey then w\<lparr>last_uid := last_uid w + 1, Prey_count := Prey_count w + 1\<rparr>
               else w\<lparr>last_uid := last_uid w + 1, Tiger_count := Tiger_count w + 1\<rparr>)
              \<lparr>animals := (animals w)(last_uid w + 1 \<mapsto> a),
                schedule := schedule w @ [last_uid w + 1]\<rparr>)"
    by (simp add: same_grass_refl)
  from same_grass_trans [OF this same_grass_place_agent [OF p]] show ?thesis
    by (simp add: w')
qed

lemma same_grass_create_babies:
  "create_babies r cfg n p sp w = Inr w' \<Longrightarrow> same_grass w w'"
proof (induction n arbitrary: w)
  case 0
  then show ?case by (simp add: same_grass_refl)
next
  case (Suc n)
  then obtain w1 where "create_baby r cfg (fst p) (snd p) 0 sp w = Inr w1"
    "create_babies r cfg n p sp w1 = Inr w'"
    by (auto simp: bind_Inr)
  with Suc.IH same_grass_create_baby show ?case
    by (blast intro: same_grass_trans)
qed

lemma same_grass_pregnancy: "pregnancy r cfg u w = Inr w' \<Longrightarrow> same_grass w w'"
proof -
  assume p: "pregnancy r cfg u w = Inr w'"
  then obtain a where a: "animals w u = Some a"
    by (auto simp: pregnancy_def split: option.splits)
  have s: "same_grass w (w\<lparr>animals := an\<rparr>)" for an by (simp add: same_grass_refl)
  from p a show ?thesis
    by (auto simp: pregnancy_def Let_def s same_grass_refl split: if_splits option.splits
             dest!: same_grass_create_babies intro: same_grass_trans [OF s])
qed

lemma same_grass_birthday: "birthday u w = Inr w' \<Longrightarrow> same_grass w w'"
  by (auto simp: birthday_def bind_Inr same_grass_refl split: if_splits option.splits)

lemma same_grass_set_target: "same_grass w (set_target u t w)"
  by (simp add: set_target_def same_grass_refl split: option.splits)

lemma same_grass_move_to_target: "move_to_target u w = Inr w' \<Longrightarrow> same_grass w w'"
  by (auto simp: move_to_target_def same_grass_refl same_grass_set_target
           split: option.splits dest: same_grass_move_agent)

lemma grazed_of_same: "same_grass w w' \<Longrightarrow> grazed cfg w w'"
proof -
  assume s: "same_grass w w'"
  have "(patches w' v = None) = (patches w v = None)" for v
  proof -
    from s have "map_option grass (patches w' v) = map_option grass (patches w v)"
      by (simp add: same_grass_def grass_level_def fun_eq_iff)
    then show ?thesis by (cases "patches w' v"; cases "patches w v") simp_all
  qed
  then have "\<forall>v. (patches w' v = None) = (patches w v = None)" by blast
  moreover have "calendar w' (regrow_tick cfg w) = calendar w (regrow_tick cfg w) @ [] \<and>
      (\<forall>v. v \<notin> set [] \<longrightarrow> grass_level w' v = grass_level w v)"
    using s by (simp add: same_grass_def calendar_def)
  then have "\<exists>ms. calendar w' (regrow_tick cfg w) = calendar w (regrow_tick cfg w) @ ms \<and>
      (\<forall>v. v \<notin> set ms \<longrightarrow> grass_level w' v = grass_level w v)"
    by blast
  ultimately show ?thesis
    using s by (simp add: grazed_def same_grass_def)
qed

lemma grazed_refl: "grazed cfg w w"
  by (rule grazed_of_same) (rule same_grass_refl)

lemma grazed_trans:
  assumes "grazed cfg w w1" "grazed cfg w1 w2"
  shows "grazed cfg w w2"
proof -
  from assms(1) have s: "step_num w1 = step_num w" by (simp add: grazed_def)
  then have T: "regrow_tick cfg w1 = regrow_tick cfg w" by (simp add: regrow_tick_def)
  from assms(1) obtain ms1 where
    m1: "calendar w1 (regrow_tick cfg w) = calendar w (regrow_tick cfg w) @ ms1"
      "\<forall>v. v \<notin> set ms1 \<longrightarrow> grass_level w1 v = grass_level w v"
    unfolding grazed_def by blast
  from assms(2) obtain ms2 where
    m2: "calendar w2 (regrow_tick cfg w) = calendar w1 (regrow_tick cfg w) @ ms2"
      "\<forall>v. v \<notin> set ms2 \<longrightarrow> grass_level w2 v = grass_level w1 v"
    unfolding grazed_def T by blast
  have "calendar w2 (regrow_tick cfg w) = calendar w (regrow_tick cfg w) @ (ms1 @ ms2) \<and>
      (\<forall>v. v \<notin> set (ms1 @ ms2) \<longrightarrow> grass_level w2 v = grass_level w v)"
    using m1 m2 by simp
  then have "\<exists>ms. calendar w2 (regrow_tick cfg w) = calendar w (regrow_tick cfg w) @ ms \<and>
      (\<forall>v. v \<notin> set ms \<longrightarrow> grass_level w2 v = grass_level w v)"
    by blast
  moreover from assms have "step_num w2 = step_num w"
    "\<forall>v. (patches w2 v = None) = (patches w v = None)"
    "\<forall>K. K \<noteq> regrow_tick cfg w \<longrightarrow> grass_ticks w2 K = grass_ticks w K"
    unfolding grazed_def T by simp_all
  ultimately show ?thesis unfolding grazed_def by blast
qed

lemma munch_is_recorded:
  "munch cfg u w = Inr w' \<Longrightarrow>
   calendar w' (regrow_tick cfg w) = calendar w (regrow_tick cfg w) @ [u]"
  by (auto simp: munch_def Let_def calendar_def split: option.splits if_splits)

lemma grazed_munch:
  assumes "munch cfg u w = Inr w'"
  shows "grazed cfg w w'"
proof -
  have "calendar w' (regrow_tick cfg w) = calendar w (regrow_tick cfg w) @ [u] \<and>
      (\<forall>v. v \<notin> set [u] \<longrightarrow> grass_level w' v = grass_level w v)"
    using assms munch_is_recorded [OF assms]
    by (auto simp: munch_def Let_def grass_level_def split: option.splits if_splits)
  then have "\<exists>ms. calendar w' (regrow_tick cfg w) = calendar w (regrow_tick cfg w) @ ms \<and>
      (\<forall>v. v \<notin> set ms \<longrightarrow> grass_level w' v = grass_level w v)"
    by blast
  moreover from assms have "step_num w' = step_num w"
    "\<forall>v. (patches w' v = None) = (patches w v = None)"
    "\<forall>K. K \<noteq> regrow_tick cfg w \<longrightarrow> grass_ticks w' K = grass_ticks w K"
    by (auto simp: munch_def Let_def split: option.splits if_splits)
  ultimately show ?thesis unfolding grazed_def by blast
qed

lemma grazed_put: "grazed cfg w w' \<Longrightarrow> grazed cfg w (w'\<lparr>animals := an\<rparr>)"
proof -
  assume g: "grazed cfg w w'"
  have "same_grass w' (w'\<lparr>animals := an\<rparr>)" by (simp add: same_grass_refl)
  from grazed_trans [OF g grazed_of_same [OF this]] show ?thesis .
qed

lemma grazed_reach_target:
  assumes r: "reach_target cfg u w = Inr res"
    and res: "res = Returned w' \<or> res = Carry_on t w'"
  shows "grazed cfg w w'"
proof -
  from r obtain self where self: "animals w u = Some self"
    by (auto simp: reach_target_def split: option.splits)
  have same: "grazed cfg w (w\<lparr>animals := an\<rparr>)" for an
    by (rule grazed_put) (rule grazed_refl)
  show ?thesis
  proof (cases "target self")
    case None
    with r self res show ?thesis by (auto simp: reach_target_def grazed_refl)
  next
    case (Some tt)
    show ?thesis
    proof (cases "obj_pos w tt")
      case None
      with r self res Some show ?thesis by (auto simp: reach_target_def grazed_refl)
    next
      case q: (Some q)
      from r self Some q obtain p where p: "pos self = Some p"
        by (auto simp: reach_target_def split: option.splits)
      show ?thesis
      proof (cases "get_distance p q < 0.5")
        case False
        with r self res Some q p show ?thesis by (auto simp: reach_target_def grazed_refl)
      next
        case near: True
        consider (eat) "species self = Prey \<and> is_grass w tt \<and> food self < 80 \<and> grown w tt"
          | (hunt) "\<not> (species self = Prey \<and> is_grass w tt \<and> food self < 80 \<and> grown w tt)"
                   "species self = Tiger \<and> has_species w tt Prey \<and> food self < 80"
          | (mate) "\<not> (species self = Prey \<and> is_grass w tt \<and> food self < 80 \<and> grown w tt)"
                   "\<not> (species self = Tiger \<and> has_species w tt Prey \<and> food self < 80)"
                   "has_species w tt (species self) \<and> mate_ready w tt"
          | (drop) "\<not> (species self = Prey \<and> is_grass w tt \<and> food self < 80 \<and> grown w tt)"
                   "\<not> (species self = Tiger \<and> has_species w tt Prey \<and> food self < 80)"
                   "\<not> (has_species w tt (species self) \<and> mate_ready w tt)"
          by blast
        then show ?thesis
        proof cases
          case eat
          with r self Some q p near obtain w1 where w1: "munch cfg tt w = Inr w1"
            and res1: "res = Returned (w1\<lparr>animals := (animals w1)(u \<mapsto> self\<lparr>food := food self + 10\<rparr>)\<rparr>)"
            by (auto simp: reach_target_def bind_Inr)
          from grazed_put [OF grazed_munch [OF w1]] res res1 show ?thesis by auto
        next
          case hunt
          with r self Some q p near obtain prey where prey: "animals w tt = Some prey"
            and res1: "res = Returned (w\<lparr>animals := (animals w)
                 (u \<mapsto> self\<lparr>food := food self + (40 + food prey / 4)\<rparr>,
                  tt \<mapsto> prey\<lparr>alive := False\<rparr>)\<rparr>)"
            by (auto simp: reach_target_def split: option.splits)
          with res same show ?thesis by auto
        next
          case mate
          with r self Some q p near obtain mt where mt: "animals w tt = Some mt"
            and res1: "res = Carry_on (Some tt) (w\<lparr>animals := (animals w)(tt \<mapsto> mt\<lparr>pregs := 0.1\<rparr>)\<rparr>)"
            by (auto simp: reach_target_def split: option.splits)
          with res same show ?thesis by auto
        next
          case drop
          with r self res Some q p near show ?thesis by (auto simp: reach_target_def grazed_refl)
        qed
      qed
    qed
  qed
qed

lemma grazed_get_target:
  assumes "get_target r cfg u w = Inr (t, w')"
  shows "grazed cfg w w'"
  using get_target_reach [OF assms] grazed_reach_target by blast

lemma grazed_resolve_and_move:
  assumes "resolve_and_move r cfg u w = Inr w'"
  shows "grazed cfg w w'"
proof -
  from assms obtain t w1 where g: "get_target r cfg u w = Inr (t, w1)"
    and mv: "move_to_target u (set_target u t w1) = Inr w'"
    by (auto simp: resolve_and_move_def bind_Inr)
  have "same_grass w1 w'"
    using same_grass_trans [OF same_grass_set_target same_grass_move_to_target [OF mv]] .
  from grazed_trans [OF grazed_get_target [OF g] grazed_of_same [OF this]] show ?thesis .
qed

lemma grazed_animal_step:
  assumes "animal_step r cfg u w = Inr w'"
  shows "grazed cfg w w'"
proof -
  from assms obtain a where a: "animals w u = Some a"
    by (auto simp: animal_step_def split: option.splits)
  let ?a1 = "a\<lparr>food := food a - FOOD_PER_TICK cfg, age := age a + AGE_T cfg\<rparr>"
  let ?w1 = "w\<lparr>animals := (animals w)(u \<mapsto> ?a1)\<rparr>"
  have s1: "same_grass w ?w1" by (simp add: same_grass_refl)
  consider (dead) "kill u w = Inr w'" | (starved) "kill u ?w1 = Inr w'"
    | (lives) w2 w3 where "pregnancy r cfg u ?w1 = Inr w2" "birthday u w2 = Inr w3"
        "resolve_and_move r cfg u w3 = Inr w'"
    using assms a by (auto simp: animal_step_def Let_def bind_Inr split: if_splits)
  then show ?thesis
  proof cases
    case dead
    then show ?thesis by (intro grazed_of_same same_grass_kill)
  next
    case starved
    from same_grass_trans [OF s1 same_grass_kill [OF starved]] show ?thesis
      by (rule grazed_of_same)
  next
    case lives
    have "same_grass w w3"
      using same_grass_trans [OF same_grass_trans [OF s1 same_grass_pregnancy [OF lives(1)]]
        same_grass_birthday [OF lives(2)]] .
    from grazed_trans [OF grazed_of_same [OF this] grazed_resolve_and_move [OF lives(3)]]
    show ?thesis .
  qed
qed

lemma grazed_run_agents:
  "run_agents r cfg ks w = Inr w' \<Longrightarrow> grazed cfg w w'"
proof (induction ks arbitrary: w)
  case Nil
  then show ?case by (simp add: grazed_refl)
next
  case (Cons k ks)
  show ?case
  proof (cases "k \<in> set (schedule w)")
    case True
    with Cons.prems obtain w1 where "animal_step r cfg k w = Inr w1"
      "run_agents r cfg ks w1 = Inr w'"
      by (auto simp: bind_Inr)
    with Cons.IH grazed_animal_step show ?thesis by (blast intro: grazed_trans)
  next
    case False
    with Cons show ?thesis by simp
  qed
qed

lemma grazed_model_step:
  "model_step r cfg w = Inr w' \<Longrightarrow> grazed cfg (begin_tick w) w'"
  by (simp add: model_step_def Let_def grazed_run_agents)




text \<open>A patch munched in a tick is on the calendar for \<open>regrow_tick\<close> when the tick ends.\<close>

lemma munched_is_scheduled:
  assumes "model_step r cfg w = Inr w'" "u \<in> set (munched_in_tick r cfg w)"
  shows "u \<in> set (calendar w' (regrow_tick cfg w'))"
proof -
  from grazed_model_step [OF assms(1)] have "step_num w' = step_num (begin_tick w)"
    by (simp add: grazed_def)
  then have "regrow_tick cfg w' = regrow_tick cfg (begin_tick w)"
    by (simp add: regrow_tick_def)
  with assms show ?thesis
    by (auto simp: munched_in_tick_def dest: in_set_dropD)
qed





subsection \<open>Positions and the bounds of the world\<close>

lemma guard_never_fires: "\<not> out_of_bounds_guard new_pos"
  by (cases new_pos) (simp add: out_of_bounds_guard_def)

lemma edge_run_9:
  "animal_at 7 (edge_run 9) =
     Some \<lparr>gender = Female, pregs = 9 / 40, target = None, age = 49 / 40, pos = Some (4, 0),
           alive = True, food = 3231 / 40, species = Tiger, max_age = 85, max_speed = 2,
           speed = 1 / 5\<rparr>"
  by (simp add: model_eval edge_run_def edge_config_def edge_rand_def)

lemma edge_run_10:
  "animal_at 7 (edge_run 10) =
     Some \<lparr>gender = Female, pregs = 1 / 4, target = Some 6, age = 5 / 4,
           pos = Some (2689299 / 668168, 0), alive = True, food = 635 / 8, species = Tiger,
           max_age = 85, max_speed = 2, speed = - (16627 / 668168)\<rparr>"
  by (simp add: model_eval edge_run_def edge_config_def edge_rand_def)

lemma edge_run_10_prey:
  "map_option pos (animal_at 6 (edge_run 10)) = Some (Some (0, 0)) \<and>
   map_option x_max (world_of (edge_run 10)) = Some 5"
  by (simp add: model_eval edge_run_def edge_config_def edge_rand_def)

text \<open>
  C1. A world of width 4 and height 1 in which a live animal stands outside \<open>[0, 4] \<times> [0, 1]\<close>
  after the tenth tick. The tigress 7 waits at \<open>(4, 0)\<close> and is mated in tick 4; in tick 10
  \<open>set_speed\<close> gives her the speed \<open>get_speed - pregs < 0\<close>, she turns to the prey 6 at
  \<open>(0, 0)\<close>, and \<open>calc_move\<close>, whose branch for a target on the same horizontal line takes the
  distance with its sign, moves her away from it, to \<open>x = 2689299 / 668168 > 4\<close>.
\<close>

theorem tigress_beyond_width:
  "map_option pos (animal_at 7 (edge_run 9)) = Some (Some (4, 0)) \<and>
   map_option alive (animal_at 7 (edge_run 10)) = Some True \<and>
   map_option speed (animal_at 7 (edge_run 10)) = Some (- (16627 / 668168)) \<and>
   map_option target (animal_at 7 (edge_run 10)) = Some (Some 6) \<and>
   map_option pos (animal_at 6 (edge_run 10)) = Some (Some (0, 0)) \<and>
   map_option pos (animal_at 7 (edge_run 10)) = Some (Some (2689299 / 668168, 0)) \<and>
   (4 :: real) < 2689299 / 668168"
  using edge_run_10_prey by (simp add: edge_run_9 edge_run_10)

lemma move_to_target_result:
  assumes "animals w u = Some a" "target a = Some t" "obj_pos w t = Some q" "pos a = Some p"
    and "u \<in> set (space w)"
  shows "move_to_target u w =
          (if out_of_bounds w (fst (calc_move (fst p) (snd p) (fst q) (snd q) (speed a)))
           then Inl OutOfBounds
           else Inr (w\<lparr>animals := (animals w)(u \<mapsto> a
                  \<lparr>pos := Some (fst (calc_move (fst p) (snd p) (fst q) (snd q) (speed a)))\<rparr>)\<rparr>))"
  using assms by (simp add: move_to_target_def move_agent_def set_pos_def)

text \<open>
  C8. Nothing is clamped. When \<open>get_target\<close> gives an animal a target with a position, the
  step hands the point computed by \<open>calc_move\<close> from the animal's position, the target's
  position and the animal's speed to the space as it is: a point outside
  \<open>[0, x_max) \<times> [0, y_max)\<close> makes the step end with the exception of \<open>move_agent\<close>, which the
  scheduler and the tick pass on; any other point becomes the animal's position unchanged.
\<close>

theorem move_is_not_clamped:
  assumes "get_target r cfg u w = Inr (Some t, w1)"
    and "animals w1 u = Some a" "obj_pos w1 t = Some q" "pos a = Some p" "u \<in> set (space w1)"
  shows "resolve_and_move r cfg u w =
          (if out_of_bounds w1 (fst (calc_move (fst p) (snd p) (fst q) (snd q) (speed a)))
           then Inl OutOfBounds
           else Inr (w1\<lparr>animals := (animals w1)(u \<mapsto> a
                  \<lparr>target := Some t,
                   pos := Some (fst (calc_move (fst p) (snd p) (fst q) (snd q) (speed a)))\<rparr>)\<rparr>))"
proof -
  let ?a = "a\<lparr>target := Some t\<rparr>"
  let ?w2 = "w1\<lparr>animals := (animals w1)(u \<mapsto> ?a)\<rparr>"
  have s: "set_target u (Some t) w1 = ?w2"
    using assms(2) by (simp add: set_target_def)
  have q: "obj_pos ?w2 t = Some q"
    using assms(2,3,4) by (cases "t = u") (auto simp: obj_pos_def split: option.splits)
  have "move_to_target u ?w2 =
          (if out_of_bounds ?w2 (fst (calc_move (fst p) (snd p) (fst q) (snd q) (speed ?a)))
           then Inl OutOfBounds
           else Inr (?w2\<lparr>animals := (animals ?w2)(u \<mapsto> ?a
                  \<lparr>pos := Some (fst (calc_move (fst p) (snd p) (fst q) (snd q) (speed ?a)))\<rparr>)\<rparr>))"
    by (rule move_to_target_result [OF _ _ q]) (use assms in simp_all)
  then show ?thesis
    by (simp add: resolve_and_move_def assms(1) bind_def s out_of_bounds_def)
qed

lemma first_hunt:
  "\<exists>w0 a.
     Prey_model (plain_rand one_male) default_config 1 1 1 1 = Inr w0 \<and>
     get_target (plain_rand one_male) default_config 3 w0 = Inr (Some 2, w0) \<and>
     animals w0 3 = Some a \<and> obj_pos w0 2 = Some (0, 0) \<and> pos a = Some (0, 0) \<and>
     3 \<in> set (space w0) \<and> \<not> out_of_bounds w0 (fst (calc_move 0 0 0 0 (speed a))) \<and>
     fst (calc_move 0 0 0 0 (speed a)) = (0, 0)"
  by (simp add: model_eval)

theorem move_is_not_clamped_witness:
  "\<exists>w0 a.
     Prey_model (plain_rand one_male) default_config 1 1 1 1 = Inr w0 \<and>
     animals w0 3 = Some a \<and>
     resolve_and_move (plain_rand one_male) default_config 3 w0 =
       Inr (w0\<lparr>animals := (animals w0)(3 \<mapsto> a\<lparr>target := Some 2, pos := Some (0, 0)\<rparr>)\<rparr>)"
proof -
  from first_hunt obtain w0 a where
    h: "Prey_model (plain_rand one_male) default_config 1 1 1 1 = Inr w0"
      "get_target (plain_rand one_male) default_config 3 w0 = Inr (Some 2, w0)"
      "animals w0 3 = Some a" "obj_pos w0 2 = Some (0, 0)" "pos a = Some (0, 0)"
      "3 \<in> set (space w0)" "\<not> out_of_bounds w0 (fst (calc_move 0 0 0 0 (speed a)))"
      "fst (calc_move 0 0 0 0 (speed a)) = (0, 0)"
    by blast
  from move_is_not_clamped [OF h(2,3,4,5,6)] h(7,8)
  have "resolve_and_move (plain_rand one_male) default_config 3 w0 =
       Inr (w0\<lparr>animals := (animals w0)(3 \<mapsto> a\<lparr>target := Some 2, pos := Some (0, 0)\<rparr>)\<rparr>)"
    by simp
  with h(1,3) show ?thesis by blast
qed

lemma corner_run_9:
  "animal_at 7 (corner_run 9) =
     Some \<lparr>gender = Female, pregs = 1 / 4, target = None, age = 49 / 40, pos = Some (0, 0),
           alive = True, food = 1291 / 16, species = Tiger, max_age = 85, max_speed = 2,
           speed = 1 / 5\<rparr>"
  by (simp add: model_eval corner_run_def edge_config_def corner_rand_def)

lemma corner_run_10: "corner_run 10 = Inl OutOfBounds"
  by (simp add: model_eval corner_run_def edge_config_def corner_rand_def)

text \<open>
  The same constants with the animals at the other end of the row: in tick 10 the point
  computed for the tigress 7, who stands at \<open>(0, 0)\<close>, has a negative \<open>x\<close>, and the tick ends
  with the exception of the space instead of a clamped position.
\<close>

theorem out_of_bounds_aborts_tick:
  "map_option pos (animal_at 7 (corner_run 9)) = Some (Some (0, 0)) \<and>
   map_option alive (animal_at 7 (corner_run 9)) = Some True \<and>
   corner_run 10 = Inl OutOfBounds"
  by (simp add: corner_run_9 corner_run_10)

end
